theory Spec2Isabelle
  imports Main "HOL-Library.AList"
begin

section \<open>Language values and completions\<close>

text \<open>
  The value model of \<^verbatim>\<open>value.mjs\<close> as the array library and the command line
  use it.  A Number is an IEEE double; the array methods compute only with integral
  doubles and the two infinities, so \<open>number\<close> has the integral doubles (as their
  integer value), the infinities and NaN.  An Object is a heap reference.  An error
  object freshly constructed by \<^verbatim>\<open>surroundingAgent.Throw(type, message)\<close> is
  represented by its type, its message template and the template's arguments.
\<close>

datatype number = Finite int | PosInfinity | NegInfinity | NaN

datatype Value =
    Undefined
  | Null
  | Boolean bool
  | String string
  | Symbol string
  | Number number
  | BigInt int
  | Object nat
  | ErrorObject string "string option" "Value list"

text \<open>\<^verbatim>\<open>Type(V)\<close> of the abstract operations, as the name the code compares with.\<close>

fun Type :: "Value \<Rightarrow> string" where
  "Type Undefined = ''Undefined''"
| "Type Null = ''Null''"
| "Type (Boolean b) = ''Boolean''"
| "Type (String s) = ''String''"
| "Type (Symbol d) = ''Symbol''"
| "Type (Number n) = ''Number''"
| "Type (BigInt i) = ''BigInt''"
| "Type (Object r) = ''Object''"
| "Type (ErrorObject t m as) = ''Object''"

text \<open>
  A completion is normal, carrying a result, or abrupt: a record of the completion
  type, the carried value and the target label.
\<close>

datatype completion_type = Break | Continue | Return | Throw

datatype abrupt = Abrupt (ctype: completion_type) (cvalue: "Value") (ctarget: "string option")

datatype 'a completion = NormalCompletion 'a | AbruptCompletion abrupt

text \<open>
  \<^verbatim>\<open>surroundingAgent.Throw(type, message)\<close>: a throw completion that carries a new
  error object.  \<^verbatim>\<open>msg(key, ...args)\<close> of \<^verbatim>\<open>helpers.mjs\<close> formats a message
  template; the model keeps the key and the arguments.
\<close>

definition ThrowCompletion :: "string \<Rightarrow> string option \<Rightarrow> Value list \<Rightarrow> abrupt" where
  "ThrowCompletion ty message margs = Abrupt Throw (ErrorObject ty message margs) None"

fun is_TypeError :: "'a completion \<Rightarrow> bool" where
  "is_TypeError (AbruptCompletion (Abrupt Throw (ErrorObject ty m as) tgt)) = (ty = ''TypeError'')"
| "is_TypeError _ = False"

subsection \<open>Arithmetic on integral doubles\<close>

text \<open>
  The sum or difference of two doubles is the exact result rounded to the nearest
  double, ties to the even significand.  Integers of magnitude up to \<open>2^53\<close> are
  doubles; above, the doubles are \<open>quantum m\<close> apart.  Lengths returned by ToLength
  are at most \<open>2^53 - 1\<close>, so loop counters bounded by a length are exact and are
  computed in \<open>int\<close>; the rounding is written out where an operand sum can leave
  that range: the guards against \<open>2^53 - 1\<close>, the lengths stored afterwards, and the
  decrement of the flattening depth.  (Overflow to Infinity, beyond \<open>2^1024\<close>, is out of
  reach of these sums.)
\<close>

function quantum :: "int \<Rightarrow> int" where
  "quantum m = (if m < 2 ^ 53 then 1 else 2 * quantum (m div 2))"
  by pat_completeness auto
termination
  by (relation "measure nat") auto

definition round_double :: "int \<Rightarrow> int" where
  "round_double x =
     (let m = \<bar>x\<bar>; q = quantum m; r = m mod q; lo = m - r;
          nearest = (if 2 * r < q then lo
                     else if 2 * r > q then lo + q
                     else if even (lo div q) then lo else lo + q)
      in sgn x * nearest)"

definition js_add :: "int \<Rightarrow> int \<Rightarrow> int" where
  "js_add a b = round_double (a + b)"

definition js_sub :: "int \<Rightarrow> int \<Rightarrow> int" where
  "js_sub a b = round_double (a - b)"

definition MAX_SAFE :: int where
  "MAX_SAFE = 2 ^ 53 - 1"

text \<open>
  The results of ToInteger: an integral double or an infinity.  \<open>relative_index\<close> is
  the idiom \<^verbatim>\<open>if (rel < 0) Math.max(len + rel, 0) else Math.min(rel, len)\<close> of
  copyWithin, fill, slice and splice, with the infinities resolved
  (\<open>max(-\<infinity>, 0) = 0\<close>, \<open>min(+\<infinity>, len) = len\<close>).
\<close>

datatype extint = Fin int | PosInf | NegInf

fun number_of_extint :: "extint \<Rightarrow> number" where
  "number_of_extint (Fin i) = Finite i"
| "number_of_extint PosInf = PosInfinity"
| "number_of_extint NegInf = NegInfinity"

fun relative_index :: "int \<Rightarrow> extint \<Rightarrow> int" where
  "relative_index len (Fin rel) = (if rel < 0 then max (len + rel) 0 else min rel len)"
| "relative_index len NegInf = 0"
| "relative_index len PosInf = len"

text \<open>\<^verbatim>\<open>Math.min(Math.max(dc, 0), bound)\<close> of splice.\<close>

fun min_max0 :: "extint \<Rightarrow> int \<Rightarrow> int" where
  "min_max0 (Fin dc) bound = min (max dc 0) bound"
| "min_max0 PosInf bound = bound"
| "min_max0 NegInf bound = min 0 bound"

text \<open>\<^verbatim>\<open>depth > 0\<close> and \<^verbatim>\<open>depth - 1\<close> of FlattenIntoArray.\<close>

fun ext_positive :: "extint \<Rightarrow> bool" where
  "ext_positive (Fin d) = (d > 0)"
| "ext_positive PosInf = True"
| "ext_positive NegInf = False"

fun ext_pred :: "extint \<Rightarrow> extint" where
  "ext_pred (Fin d) = Fin (js_sub d 1)"
| "ext_pred PosInf = PosInf"
| "ext_pred NegInf = NegInf"

subsection \<open>Property keys of integer indices\<close>

text \<open>
  \<^verbatim>\<open>ToString(new Value(k))\<close> for an integer \<open>k\<close> (below \<open>10^21\<close> in magnitude): the
  decimal digits, with a minus sign for a negative number.  The operation is pure on
  Numbers, which is why the code wraps it in \<^verbatim>\<open>X(...)\<close>.
\<close>

definition digit_char :: "int \<Rightarrow> char" where
  "digit_char d = ''0123456789'' ! nat (d mod 10)"

function digits :: "int \<Rightarrow> string" where
  "digits n = (if n < 10 then [digit_char n] else digits (n div 10) @ [digit_char (n mod 10)])"
  by pat_completeness auto
termination
  by (relation "measure nat") auto

definition NumberToString :: "int \<Rightarrow> Value" where
  "NumberToString k =
     String (if k < 0 then CHR ''-'' # digits (- k) else digits k)"

definition length_key :: "Value" where
  "length_key = String ''length''"

text \<open>The equations of \<open>quantum\<close> and \<open>digits\<close> are unfolded where a proof asks for them.\<close>

declare quantum.simps [simp del]
  digits.simps [simp del]

section \<open>The abstract operations the array library calls\<close>

text \<open>
  \<^verbatim>\<open>ArrayPrototype.mjs\<close> imports its abstract operations from
  \<^verbatim>\<open>abstract-ops/all.mjs\<close> and the sort body from \<^verbatim>\<open>ArrayPrototypeShared.mjs\<close>.
  They are the parameters of the model: a record of operations over a host state
  \<open>'s\<close> (the heap and whatever else the engine holds).  Each effectful operation
  takes the state and returns a completion with the new state.  The operations whose
  result the code compares with \<^verbatim>\<open>Value.true\<close> return a Value; ToLength and
  ToInteger return the \<^verbatim>\<open>numberValue()\<close> of their Number.  IsCallable and ToBoolean
  return a Value directly and have no effect.
\<close>

record 's abstract_ops =
  ToObject_op :: "Value \<Rightarrow> 's \<Rightarrow> Value completion \<times> 's"
  Get_op :: "Value \<Rightarrow> Value \<Rightarrow> 's \<Rightarrow> Value completion \<times> 's"
  Set_op :: "Value \<Rightarrow> Value \<Rightarrow> Value \<Rightarrow> Value \<Rightarrow> 's \<Rightarrow> Value completion \<times> 's"
  HasProperty_op :: "Value \<Rightarrow> Value \<Rightarrow> 's \<Rightarrow> Value completion \<times> 's"
  DeletePropertyOrThrow_op :: "Value \<Rightarrow> Value \<Rightarrow> 's \<Rightarrow> Value completion \<times> 's"
  CreateDataPropertyOrThrow_op :: "Value \<Rightarrow> Value \<Rightarrow> Value \<Rightarrow> 's \<Rightarrow> Value completion \<times> 's"
  ToLength_op :: "Value \<Rightarrow> 's \<Rightarrow> int completion \<times> 's"
  ToInteger_op :: "Value \<Rightarrow> 's \<Rightarrow> extint completion \<times> 's"
  IsArray_op :: "Value \<Rightarrow> 's \<Rightarrow> Value completion \<times> 's"
  IsConcatSpreadable_op :: "Value \<Rightarrow> 's \<Rightarrow> Value completion \<times> 's"
  ArraySpeciesCreate_op :: "Value \<Rightarrow> Value \<Rightarrow> 's \<Rightarrow> Value completion \<times> 's"
  Call_op :: "Value \<Rightarrow> Value \<Rightarrow> Value list \<Rightarrow> 's \<Rightarrow> Value completion \<times> 's"
  ArrayProto_sortBody_op :: "Value \<Rightarrow> int \<Rightarrow> Value \<Rightarrow> 's \<Rightarrow> Value completion \<times> 's"
  IsCallable_op :: "Value \<Rightarrow> 's \<Rightarrow> Value"
  ToBoolean_op :: "Value \<Rightarrow> Value"

text \<open>
  Every call of an effectful operation is recorded, with its arguments and its
  completion, in a log that the model threads next to the host state.  The log is what
  makes the order of the calls, and whether a call happens at all, a statement about
  the method.
\<close>

datatype event =
    ToObject_called Value "Value completion"
  | Get_called Value Value "Value completion"
  | Set_called Value Value Value Value "Value completion"
  | HasProperty_called Value Value "Value completion"
  | DeletePropertyOrThrow_called Value Value "Value completion"
  | CreateDataPropertyOrThrow_called Value Value Value "Value completion"
  | ToLength_called Value "int completion"
  | ToInteger_called Value "extint completion"
  | IsArray_called Value "Value completion"
  | IsConcatSpreadable_called Value "Value completion"
  | ArraySpeciesCreate_called Value Value "Value completion"
  | Call_called Value Value "Value list" "Value completion"
  | ArrayProto_sortBody_called Value int Value "Value completion"

text \<open>
  A computation takes the host state and the log and returns a completion with the new
  state and log.  \<open>None\<close> stands for a computation that does not return: only
  FlattenIntoArray, whose recursion the model bounds by fuel, produces it.
\<close>

type_synonym ('s, 'a) exec = "'s \<times> event list \<Rightarrow> ('a completion \<times> 's \<times> event list) option"

definition ret :: "'a \<Rightarrow> ('s, 'a) exec" where
  "ret x = (\<lambda>st. Some (NormalCompletion x, st))"

definition surroundingAgent_Throw :: "string \<Rightarrow> string option \<Rightarrow> Value list \<Rightarrow> ('s, 'a) exec" where
  "surroundingAgent_Throw ty message margs =
     (\<lambda>st. Some (AbruptCompletion (ThrowCompletion ty message margs), st))"

text \<open>\<^verbatim>\<open>Q(op)\<close> of \<^verbatim>\<open>completion.mjs\<close>: an abrupt completion is returned at once,
  a normal one hands its result to the rest of the function.\<close>

definition Q :: "('s, 'a) exec \<Rightarrow> ('a \<Rightarrow> ('s, 'b) exec) \<Rightarrow> ('s, 'b) exec" where
  "Q m f = (\<lambda>st. case m st of
              None \<Rightarrow> None
            | Some (NormalCompletion x, st') \<Rightarrow> f x st'
            | Some (AbruptCompletion c, st') \<Rightarrow> Some (AbruptCompletion c, st'))"

definition perform :: "('s \<Rightarrow> 'a completion \<times> 's) \<Rightarrow> ('a completion \<Rightarrow> event) \<Rightarrow> ('s, 'a) exec" where
  "perform f ev = (\<lambda>(s, tr). case f s of (r, s') \<Rightarrow> Some (r, s', tr @ [ev r]))"

definition ToObject :: "'s abstract_ops \<Rightarrow> Value \<Rightarrow> ('s, Value) exec" where
  "ToObject ops v = perform (ToObject_op ops v) (ToObject_called v)"

definition Get :: "'s abstract_ops \<Rightarrow> Value \<Rightarrow> Value \<Rightarrow> ('s, Value) exec" where
  "Get ops Ob P = perform (Get_op ops Ob P) (Get_called Ob P)"

definition Set :: "'s abstract_ops \<Rightarrow> Value \<Rightarrow> Value \<Rightarrow> Value \<Rightarrow> Value \<Rightarrow> ('s, Value) exec" where
  "Set ops Ob P V T = perform (Set_op ops Ob P V T) (Set_called Ob P V T)"

definition HasProperty :: "'s abstract_ops \<Rightarrow> Value \<Rightarrow> Value \<Rightarrow> ('s, Value) exec" where
  "HasProperty ops Ob P = perform (HasProperty_op ops Ob P) (HasProperty_called Ob P)"

definition DeletePropertyOrThrow :: "'s abstract_ops \<Rightarrow> Value \<Rightarrow> Value \<Rightarrow> ('s, Value) exec" where
  "DeletePropertyOrThrow ops Ob P =
     perform (DeletePropertyOrThrow_op ops Ob P) (DeletePropertyOrThrow_called Ob P)"

definition CreateDataPropertyOrThrow ::
  "'s abstract_ops \<Rightarrow> Value \<Rightarrow> Value \<Rightarrow> Value \<Rightarrow> ('s, Value) exec" where
  "CreateDataPropertyOrThrow ops Ob P V =
     perform (CreateDataPropertyOrThrow_op ops Ob P V) (CreateDataPropertyOrThrow_called Ob P V)"

definition ToLength :: "'s abstract_ops \<Rightarrow> Value \<Rightarrow> ('s, int) exec" where
  "ToLength ops v = perform (ToLength_op ops v) (ToLength_called v)"

definition ToInteger :: "'s abstract_ops \<Rightarrow> Value \<Rightarrow> ('s, extint) exec" where
  "ToInteger ops v = perform (ToInteger_op ops v) (ToInteger_called v)"

definition IsArray :: "'s abstract_ops \<Rightarrow> Value \<Rightarrow> ('s, Value) exec" where
  "IsArray ops v = perform (IsArray_op ops v) (IsArray_called v)"

definition IsConcatSpreadable :: "'s abstract_ops \<Rightarrow> Value \<Rightarrow> ('s, Value) exec" where
  "IsConcatSpreadable ops v = perform (IsConcatSpreadable_op ops v) (IsConcatSpreadable_called v)"

definition ArraySpeciesCreate :: "'s abstract_ops \<Rightarrow> Value \<Rightarrow> Value \<Rightarrow> ('s, Value) exec" where
  "ArraySpeciesCreate ops Ob len =
     perform (ArraySpeciesCreate_op ops Ob len) (ArraySpeciesCreate_called Ob len)"

definition Call :: "'s abstract_ops \<Rightarrow> Value \<Rightarrow> Value \<Rightarrow> Value list \<Rightarrow> ('s, Value) exec" where
  "Call ops F V argumentsList = perform (Call_op ops F V argumentsList) (Call_called F V argumentsList)"

definition ArrayProto_sortBody :: "'s abstract_ops \<Rightarrow> Value \<Rightarrow> int \<Rightarrow> Value \<Rightarrow> ('s, Value) exec" where
  "ArrayProto_sortBody ops obj len comparefn =
     perform (ArrayProto_sortBody_op ops obj len comparefn) (ArrayProto_sortBody_called obj len comparefn)"

definition IsCallable :: "'s abstract_ops \<Rightarrow> Value \<Rightarrow> ('s, Value) exec" where
  "IsCallable ops v = (\<lambda>(s, tr). Some (NormalCompletion (IsCallable_op ops v s), s, tr))"

text \<open>
  A parameter of a built-in function that the caller did not pass:
  \<^verbatim>\<open>[callbackfn = Value.undefined, thisArg]\<close> gives a missing \<^verbatim>\<open>callbackfn\<close> the
  default, and \<^verbatim>\<open>thisArg || Value.undefined\<close> does the same for \<^verbatim>\<open>thisArg\<close>.
\<close>

definition arg :: "Value list \<Rightarrow> nat \<Rightarrow> Value" where
  "arg args i = (if i < length args then args ! i else Undefined)"

section \<open>The methods of Array.prototype\<close>

text \<open>
  \<^verbatim>\<open>src/intrinsics/ArrayPrototype.mjs\<close>, function by function.  A method takes the
  operations, the argument list and the receiver \<^verbatim>\<open>thisValue\<close>.  Each \<^verbatim>\<open>while\<close>
  loop is a recursive function over the loop variables; a loop that consumes
  \<^verbatim>\<open>items\<close> recurses over the list.
\<close>

subsection \<open>22.1.3.1 Array.prototype.concat\<close>

function concat_elements ::
  "'s abstract_ops \<Rightarrow> Value \<Rightarrow> Value \<Rightarrow> int \<Rightarrow> int \<Rightarrow> int \<Rightarrow> ('s, int) exec" where
  "concat_elements ops A E len n k =
     (if k < len then
        Q (HasProperty ops E (NumberToString k)) (\<lambda>exists.
        Q (if exists = Boolean True then
             Q (Get ops E (NumberToString k)) (\<lambda>subElement.
             CreateDataPropertyOrThrow ops A (NumberToString n) subElement)
           else ret Undefined) (\<lambda>_.
        concat_elements ops A E len (n + 1) (k + 1)))
      else ret n)"
  by pat_completeness auto
termination
  by (relation "measure (\<lambda>(ops, A, E, len, n, k). nat (len - k))") auto

fun concat_items :: "'s abstract_ops \<Rightarrow> Value \<Rightarrow> int \<Rightarrow> Value list \<Rightarrow> ('s, int) exec" where
  "concat_items ops A n [] = ret n"
| "concat_items ops A n (E # items) =
     Q (IsConcatSpreadable ops E) (\<lambda>spreadable.
     if spreadable = Boolean True then
       Q (Get ops E length_key) (\<lambda>lenProp.
       Q (ToLength ops lenProp) (\<lambda>len.
       if js_add n len > MAX_SAFE
       then surroundingAgent_Throw ''TypeError'' (Some ''ArrayPastSafeLength'') []
       else Q (concat_elements ops A E len n 0) (\<lambda>n. concat_items ops A n items)))
     else if n \<ge> MAX_SAFE
       then surroundingAgent_Throw ''TypeError'' (Some ''ArrayPastSafeLength'') []
       else Q (CreateDataPropertyOrThrow ops A (NumberToString n) E) (\<lambda>_.
            concat_items ops A (n + 1) items))"


subsection \<open>22.1.3.3 Array.prototype.copyWithin\<close>

function copyWithin_loop ::
  "'s abstract_ops \<Rightarrow> Value \<Rightarrow> int \<Rightarrow> int \<Rightarrow> int \<Rightarrow> int \<Rightarrow> ('s, unit) exec" where
  "copyWithin_loop ops Ob direction from to count =
     (if count > 0 then
        Q (HasProperty ops Ob (NumberToString from)) (\<lambda>fromPresent.
        Q (if fromPresent = Boolean True then
             Q (Get ops Ob (NumberToString from)) (\<lambda>fromVal.
             Set ops Ob (NumberToString to) fromVal (Boolean True))
           else DeletePropertyOrThrow ops Ob (NumberToString to)) (\<lambda>_.
        copyWithin_loop ops Ob direction (from + direction) (to + direction) (count - 1)))
      else ret ())"
  by pat_completeness auto
termination
  by (relation "measure (\<lambda>(ops, Ob, direction, from, to, count). nat count)") auto


subsection \<open>22.1.3.6 Array.prototype.fill\<close>

function fill_loop :: "'s abstract_ops \<Rightarrow> Value \<Rightarrow> Value \<Rightarrow> int \<Rightarrow> int \<Rightarrow> ('s, unit) exec" where
  "fill_loop ops Ob v k final =
     (if k < final then
        Q (Set ops Ob (NumberToString k) v (Boolean True)) (\<lambda>_.
        fill_loop ops Ob v (k + 1) final)
      else ret ())"
  by pat_completeness auto
termination
  by (relation "measure (\<lambda>(ops, Ob, v, k, final). nat (final - k))") auto


subsection \<open>22.1.3.7 Array.prototype.filter\<close>

function filter_loop ::
  "'s abstract_ops \<Rightarrow> Value \<Rightarrow> Value \<Rightarrow> Value \<Rightarrow> Value \<Rightarrow> int \<Rightarrow> int \<Rightarrow> int \<Rightarrow> ('s, unit) exec" where
  "filter_loop ops Ob callbackfn T A len k to =
     (if k < len then
        Q (HasProperty ops Ob (NumberToString k)) (\<lambda>kPresent.
        if kPresent = Boolean True then
          Q (Get ops Ob (NumberToString k)) (\<lambda>kValue.
          Q (Call ops callbackfn T [kValue, Number (Finite k), Ob]) (\<lambda>res.
          let selected = ToBoolean_op ops res in
          if selected = Boolean True then
            Q (CreateDataPropertyOrThrow ops A (NumberToString to) kValue) (\<lambda>_.
            filter_loop ops Ob callbackfn T A len (k + 1) (to + 1))
          else filter_loop ops Ob callbackfn T A len (k + 1) to))
        else filter_loop ops Ob callbackfn T A len (k + 1) to)
      else ret ())"
  by pat_completeness auto
termination
  by (relation "measure (\<lambda>(ops, Ob, callbackfn, T, A, len, k, to). nat (len - k))") auto

definition ArrayProto_filter :: "'s abstract_ops \<Rightarrow> Value list \<Rightarrow> Value \<Rightarrow> ('s, Value) exec" where
  "ArrayProto_filter ops args thisValue =
     Q (ToObject ops thisValue) (\<lambda>Ob.
     Q (Get ops Ob length_key) (\<lambda>lenProp.
     Q (ToLength ops lenProp) (\<lambda>len.
     Q (IsCallable ops (arg args 0)) (\<lambda>callable.
     if callable = Boolean False
     then surroundingAgent_Throw ''TypeError'' (Some ''NotAFunction'') [arg args 0]
     else
       Q (ArraySpeciesCreate ops Ob (Number (Finite 0))) (\<lambda>A.
       Q (filter_loop ops Ob (arg args 0) (arg args 1) A len 0 0) (\<lambda>_.
       ret A))))))"

subsection \<open>FlattenIntoArray, Array.prototype.flat and Array.prototype.flatMap\<close>

text \<open>
  FlattenIntoArray calls itself on each element it flattens; on an array that
  contains itself, with depth Infinity, it does not return.  The model bounds the
  nesting of these calls by \<open>fuel\<close> and returns \<open>None\<close> when the fuel is used up; the
  loop over the source indices needs no fuel.  \<open>FlattenIntoArray_from\<close> is the
  function from a given \<^verbatim>\<open>targetIndex\<close> and \<^verbatim>\<open>sourceIndex\<close> on.  The optional
  parameter \<^verbatim>\<open>mapperFunction\<close> is an option.
\<close>

function FlattenIntoArray_from ::
  "nat \<Rightarrow> 's abstract_ops \<Rightarrow> Value \<Rightarrow> Value \<Rightarrow> int \<Rightarrow> extint \<Rightarrow> Value option \<Rightarrow> Value \<Rightarrow>
     int \<Rightarrow> int \<Rightarrow> ('s, int) exec" where
  "FlattenIntoArray_from fuel ops target source sourceLen depth mapperFunction thisArg
       targetIndex sourceIndex =
     (if fuel = 0 then (\<lambda>st. None)
      else if sourceIndex < sourceLen then
        Q (HasProperty ops source (NumberToString sourceIndex)) (\<lambda>exists.
        if exists = Boolean True then
          Q (Get ops source (NumberToString sourceIndex)) (\<lambda>element.
          Q (case mapperFunction of
               None \<Rightarrow> ret element
             | Some f \<Rightarrow> Call ops f thisArg [element, Number (Finite sourceIndex), source])
            (\<lambda>element.
          Q (if ext_positive depth then IsArray ops element else ret (Boolean False))
            (\<lambda>shouldFlatten.
          if shouldFlatten = Boolean True then
            Q (Get ops element length_key) (\<lambda>lenProp.
            Q (ToLength ops lenProp) (\<lambda>elementLen.
            Q (FlattenIntoArray_from (fuel - 1) ops target element elementLen (ext_pred depth)
                 None Undefined targetIndex 0) (\<lambda>targetIndex.
            FlattenIntoArray_from fuel ops target source sourceLen depth mapperFunction thisArg
              targetIndex (sourceIndex + 1))))
          else if targetIndex \<ge> MAX_SAFE
            then surroundingAgent_Throw ''TypeError'' None []
            else
              Q (CreateDataPropertyOrThrow ops target (NumberToString targetIndex) element) (\<lambda>_.
              FlattenIntoArray_from fuel ops target source sourceLen depth mapperFunction thisArg
                (targetIndex + 1) (sourceIndex + 1)))))
        else FlattenIntoArray_from fuel ops target source sourceLen depth mapperFunction thisArg
               targetIndex (sourceIndex + 1))
      else ret targetIndex)"
  by pat_completeness auto
termination
  by (relation "measures [\<lambda>(fuel, ops, target, source, sourceLen, depth, mapperFunction, thisArg,
                            targetIndex, sourceIndex). fuel,
                          \<lambda>(fuel, ops, target, source, sourceLen, depth, mapperFunction, thisArg,
                            targetIndex, sourceIndex). nat (sourceLen - sourceIndex)]") auto

definition FlattenIntoArray ::
  "nat \<Rightarrow> 's abstract_ops \<Rightarrow> Value \<Rightarrow> Value \<Rightarrow> int \<Rightarrow> int \<Rightarrow> extint \<Rightarrow> Value option \<Rightarrow> Value \<Rightarrow>
     ('s, int) exec" where
  "FlattenIntoArray fuel ops target source sourceLen start depth mapperFunction thisArg =
     FlattenIntoArray_from fuel ops target source sourceLen depth mapperFunction thisArg start 0"

definition ArrayProto_flat :: "nat \<Rightarrow> 's abstract_ops \<Rightarrow> Value list \<Rightarrow> Value \<Rightarrow> ('s, Value) exec" where
  "ArrayProto_flat fuel ops args thisValue =
     Q (ToObject ops thisValue) (\<lambda>Ob.
     Q (Get ops Ob length_key) (\<lambda>lenProp.
     Q (ToLength ops lenProp) (\<lambda>sourceLen.
     Q (if arg args 0 \<noteq> Undefined then ToInteger ops (arg args 0) else ret (Fin 1)) (\<lambda>depthNum.
     Q (ArraySpeciesCreate ops Ob (Number (Finite 0))) (\<lambda>A.
     Q (FlattenIntoArray fuel ops A Ob sourceLen 0 depthNum None Undefined) (\<lambda>_.
     ret A))))))"

definition ArrayProto_flatMap :: "nat \<Rightarrow> 's abstract_ops \<Rightarrow> Value list \<Rightarrow> Value \<Rightarrow> ('s, Value) exec" where
  "ArrayProto_flatMap fuel ops args thisValue =
     Q (ToObject ops thisValue) (\<lambda>Ob.
     Q (Get ops Ob length_key) (\<lambda>lenProp.
     Q (ToLength ops lenProp) (\<lambda>sourceLen.
     Q (IsCallable ops (arg args 0)) (\<lambda>callable.
     if callable = Boolean False
     then surroundingAgent_Throw ''TypeError'' None []
     else
       Q (ArraySpeciesCreate ops Ob (Number (Finite 0))) (\<lambda>A.
       Q (FlattenIntoArray fuel ops A Ob sourceLen 0 (Fin 1) (Some (arg args 0)) (arg args 1)) (\<lambda>_.
       ret A))))))"

subsection \<open>22.1.3.16 Array.prototype.map\<close>

function map_loop ::
  "'s abstract_ops \<Rightarrow> Value \<Rightarrow> Value \<Rightarrow> Value \<Rightarrow> Value \<Rightarrow> int \<Rightarrow> int \<Rightarrow> ('s, unit) exec" where
  "map_loop ops Ob callbackfn T A len k =
     (if k < len then
        Q (HasProperty ops Ob (NumberToString k)) (\<lambda>kPresent.
        Q (if kPresent = Boolean True then
             Q (Get ops Ob (NumberToString k)) (\<lambda>kValue.
             Q (Call ops callbackfn T [kValue, Number (Finite k), Ob]) (\<lambda>mappedValue.
             CreateDataPropertyOrThrow ops A (NumberToString k) mappedValue))
           else ret Undefined) (\<lambda>_.
        map_loop ops Ob callbackfn T A len (k + 1)))
      else ret ())"
  by pat_completeness auto
termination
  by (relation "measure (\<lambda>(ops, Ob, callbackfn, T, A, len, k). nat (len - k))") auto

definition ArrayProto_map :: "'s abstract_ops \<Rightarrow> Value list \<Rightarrow> Value \<Rightarrow> ('s, Value) exec" where
  "ArrayProto_map ops args thisValue =
     Q (ToObject ops thisValue) (\<lambda>Ob.
     Q (Get ops Ob length_key) (\<lambda>lenProp.
     Q (ToLength ops lenProp) (\<lambda>len.
     Q (IsCallable ops (arg args 0)) (\<lambda>callable.
     if callable = Boolean False
     then surroundingAgent_Throw ''TypeError'' (Some ''callbackfn is not callable'') []
     else
       Q (ArraySpeciesCreate ops Ob (Number (Finite len))) (\<lambda>A.
       Q (map_loop ops Ob (arg args 0) (arg args 1) A len 0) (\<lambda>_.
       ret A))))))"

subsection \<open>22.1.3.17 Array.prototype.pop\<close>

definition ArrayProto_pop :: "'s abstract_ops \<Rightarrow> Value list \<Rightarrow> Value \<Rightarrow> ('s, Value) exec" where
  "ArrayProto_pop ops args thisValue =
     Q (ToObject ops thisValue) (\<lambda>Ob.
     Q (Get ops Ob length_key) (\<lambda>lenProp.
     Q (ToLength ops lenProp) (\<lambda>len.
     if len = 0 then
       Q (Set ops Ob length_key (Number (Finite 0)) (Boolean True)) (\<lambda>_.
       ret Undefined)
     else
       let newLen = len - 1; index = NumberToString newLen in
       Q (Get ops Ob index) (\<lambda>element.
       Q (DeletePropertyOrThrow ops Ob index) (\<lambda>_.
       Q (Set ops Ob length_key (Number (Finite newLen)) (Boolean True)) (\<lambda>_.
       ret element))))))"

subsection \<open>22.1.3.18 Array.prototype.push\<close>

fun push_loop :: "'s abstract_ops \<Rightarrow> Value \<Rightarrow> int \<Rightarrow> Value list \<Rightarrow> ('s, int) exec" where
  "push_loop ops Ob len [] = ret len"
| "push_loop ops Ob len (E # items) =
     Q (Set ops Ob (NumberToString len) E (Boolean True)) (\<lambda>_.
     push_loop ops Ob (len + 1) items)"

definition ArrayProto_push :: "'s abstract_ops \<Rightarrow> Value list \<Rightarrow> Value \<Rightarrow> ('s, Value) exec" where
  "ArrayProto_push ops items thisValue =
     Q (ToObject ops thisValue) (\<lambda>Ob.
     Q (Get ops Ob length_key) (\<lambda>lenProp.
     Q (ToLength ops lenProp) (\<lambda>len.
     let argCount = int (length items) in
     if js_add len argCount > MAX_SAFE
     then surroundingAgent_Throw ''TypeError'' (Some ''ArrayPastSafeLength'') []
     else
       Q (push_loop ops Ob len items) (\<lambda>len.
       Q (Set ops Ob length_key (Number (Finite len)) (Boolean True)) (\<lambda>_.
       ret (Number (Finite len)))))))"

subsection \<open>22.1.3.22 Array.prototype.shift\<close>

function shift_loop :: "'s abstract_ops \<Rightarrow> Value \<Rightarrow> int \<Rightarrow> int \<Rightarrow> ('s, unit) exec" where
  "shift_loop ops Ob len k =
     (if k < len then
        Q (HasProperty ops Ob (NumberToString k)) (\<lambda>fromPresent.
        Q (if fromPresent = Boolean True then
             Q (Get ops Ob (NumberToString k)) (\<lambda>fromVal.
             Set ops Ob (NumberToString (k - 1)) fromVal (Boolean True))
           else DeletePropertyOrThrow ops Ob (NumberToString (k - 1))) (\<lambda>_.
        shift_loop ops Ob len (k + 1)))
      else ret ())"
  by pat_completeness auto
termination
  by (relation "measure (\<lambda>(ops, Ob, len, k). nat (len - k))") auto

definition ArrayProto_shift :: "'s abstract_ops \<Rightarrow> Value list \<Rightarrow> Value \<Rightarrow> ('s, Value) exec" where
  "ArrayProto_shift ops args thisValue =
     Q (ToObject ops thisValue) (\<lambda>Ob.
     Q (Get ops Ob length_key) (\<lambda>lenProp.
     Q (ToLength ops lenProp) (\<lambda>len.
     if len = 0 then
       Q (Set ops Ob length_key (Number (Finite 0)) (Boolean True)) (\<lambda>_.
       ret Undefined)
     else
       Q (Get ops Ob (String ''0'')) (\<lambda>first.
       Q (shift_loop ops Ob len 1) (\<lambda>_.
       Q (DeletePropertyOrThrow ops Ob (NumberToString (len - 1))) (\<lambda>_.
       Q (Set ops Ob length_key (Number (Finite (len - 1))) (Boolean True)) (\<lambda>_.
       ret first)))))))"

subsection \<open>22.1.3.23 Array.prototype.slice\<close>

function slice_loop ::
  "'s abstract_ops \<Rightarrow> Value \<Rightarrow> Value \<Rightarrow> int \<Rightarrow> int \<Rightarrow> int \<Rightarrow> ('s, int) exec" where
  "slice_loop ops Ob A final k n =
     (if k < final then
        Q (HasProperty ops Ob (NumberToString k)) (\<lambda>kPresent.
        Q (if kPresent = Boolean True then
             Q (Get ops Ob (NumberToString k)) (\<lambda>kValue.
             CreateDataPropertyOrThrow ops A (NumberToString n) kValue)
           else ret Undefined) (\<lambda>_.
        slice_loop ops Ob A final (k + 1) (n + 1)))
      else ret n)"
  by pat_completeness auto
termination
  by (relation "measure (\<lambda>(ops, Ob, A, final, k, n). nat (final - k))") auto


subsection \<open>22.1.3.25 Array.prototype.sort\<close>

text \<open>
  The closure \<^verbatim>\<open>(x, y) => SortCompare(x, y, comparefn)\<close> handed to the sort body is
  determined by \<^verbatim>\<open>comparefn\<close>, which the model passes in its place.  IsCallable has
  no effect, so evaluating it before the test of \<^verbatim>\<open>comparefn !== Value.undefined\<close>
  changes nothing.
\<close>

definition ArrayProto_sort :: "'s abstract_ops \<Rightarrow> Value list \<Rightarrow> Value \<Rightarrow> ('s, Value) exec" where
  "ArrayProto_sort ops args thisValue =
     Q (IsCallable ops (arg args 0)) (\<lambda>callable.
     if arg args 0 \<noteq> Undefined \<and> callable = Boolean False
     then surroundingAgent_Throw ''TypeError'' (Some ''NotAFunction'') [arg args 0]
     else
       Q (ToObject ops thisValue) (\<lambda>obj.
       Q (Get ops obj length_key) (\<lambda>lenProp.
       Q (ToLength ops lenProp) (\<lambda>len.
       ArrayProto_sortBody ops obj len (arg args 0)))))"

subsection \<open>22.1.3.26 Array.prototype.splice\<close>

function splice_copy_deleted ::
  "'s abstract_ops \<Rightarrow> Value \<Rightarrow> Value \<Rightarrow> int \<Rightarrow> int \<Rightarrow> int \<Rightarrow> ('s, unit) exec" where
  "splice_copy_deleted ops Ob A actualStart actualDeleteCount k =
     (if k < actualDeleteCount then
        Q (HasProperty ops Ob (NumberToString (actualStart + k))) (\<lambda>fromPresent.
        Q (if fromPresent = Boolean True then
             Q (Get ops Ob (NumberToString (actualStart + k))) (\<lambda>fromValue.
             CreateDataPropertyOrThrow ops A (NumberToString k) fromValue)
           else ret Undefined) (\<lambda>_.
        splice_copy_deleted ops Ob A actualStart actualDeleteCount (k + 1)))
      else ret ())"
  by pat_completeness auto
termination
  by (relation "measure (\<lambda>(ops, Ob, A, actualStart, actualDeleteCount, k).
                  nat (actualDeleteCount - k))") auto

function splice_move_down ::
  "'s abstract_ops \<Rightarrow> Value \<Rightarrow> int \<Rightarrow> int \<Rightarrow> int \<Rightarrow> int \<Rightarrow> ('s, unit) exec" where
  "splice_move_down ops Ob len actualDeleteCount itemCount k =
     (if k < len - actualDeleteCount then
        Q (HasProperty ops Ob (NumberToString (k + actualDeleteCount))) (\<lambda>fromPresent.
        Q (if fromPresent = Boolean True then
             Q (Get ops Ob (NumberToString (k + actualDeleteCount))) (\<lambda>fromValue.
             Set ops Ob (NumberToString (k + itemCount)) fromValue (Boolean True))
           else DeletePropertyOrThrow ops Ob (NumberToString (k + itemCount))) (\<lambda>_.
        splice_move_down ops Ob len actualDeleteCount itemCount (k + 1)))
      else ret ())"
  by pat_completeness auto
termination
  by (relation "measure (\<lambda>(ops, Ob, len, actualDeleteCount, itemCount, k).
                  nat (len - actualDeleteCount - k))") auto

function splice_delete_tail ::
  "'s abstract_ops \<Rightarrow> Value \<Rightarrow> int \<Rightarrow> int \<Rightarrow> int \<Rightarrow> int \<Rightarrow> ('s, unit) exec" where
  "splice_delete_tail ops Ob len actualDeleteCount itemCount k =
     (if k > len - actualDeleteCount + itemCount then
        Q (DeletePropertyOrThrow ops Ob (NumberToString (k - 1))) (\<lambda>_.
        splice_delete_tail ops Ob len actualDeleteCount itemCount (k - 1))
      else ret ())"
  by pat_completeness auto
termination
  by (relation "measure (\<lambda>(ops, Ob, len, actualDeleteCount, itemCount, k).
                  nat (k - (len - actualDeleteCount + itemCount)))") auto

function splice_move_up ::
  "'s abstract_ops \<Rightarrow> Value \<Rightarrow> int \<Rightarrow> int \<Rightarrow> int \<Rightarrow> int \<Rightarrow> ('s, unit) exec" where
  "splice_move_up ops Ob actualStart actualDeleteCount itemCount k =
     (if k > actualStart then
        Q (HasProperty ops Ob (NumberToString (k + actualDeleteCount - 1))) (\<lambda>fromPresent.
        Q (if fromPresent = Boolean True then
             Q (Get ops Ob (NumberToString (k + actualDeleteCount - 1))) (\<lambda>fromValue.
             Set ops Ob (NumberToString (k + itemCount - 1)) fromValue (Boolean True))
           else DeletePropertyOrThrow ops Ob (NumberToString (k + itemCount - 1))) (\<lambda>_.
        splice_move_up ops Ob actualStart actualDeleteCount itemCount (k - 1)))
      else ret ())"
  by pat_completeness auto
termination
  by (relation "measure (\<lambda>(ops, Ob, actualStart, actualDeleteCount, itemCount, k).
                  nat (k - actualStart))") auto

fun splice_insert :: "'s abstract_ops \<Rightarrow> Value \<Rightarrow> int \<Rightarrow> Value list \<Rightarrow> ('s, unit) exec" where
  "splice_insert ops Ob k [] = ret ()"
| "splice_insert ops Ob k (E # items) =
     Q (Set ops Ob (NumberToString k) E (Boolean True)) (\<lambda>_.
     splice_insert ops Ob (k + 1) items)"

definition ArrayProto_splice :: "'s abstract_ops \<Rightarrow> Value list \<Rightarrow> Value \<Rightarrow> ('s, Value) exec" where
  "ArrayProto_splice ops args thisValue =
     (let items = drop 2 args in
     Q (ToObject ops thisValue) (\<lambda>Ob.
     Q (Get ops Ob length_key) (\<lambda>lenProp.
     Q (ToLength ops lenProp) (\<lambda>len.
     Q (ToInteger ops (arg args 0)) (\<lambda>relativeStart.
     let actualStart = relative_index len relativeStart in
     Q (if length args = 0 then ret (0, 0)
        else if length args = 1 then ret (0, len - actualStart)
        else Q (ToInteger ops (arg args 1)) (\<lambda>dc.
             ret (int (length args) - 2, min_max0 dc (len - actualStart))))
       (\<lambda>(insertCount, actualDeleteCount).
     if js_sub (js_add len insertCount) actualDeleteCount > MAX_SAFE
     then surroundingAgent_Throw ''TypeError'' (Some ''ArrayPastSafeLength'') []
     else
       Q (ArraySpeciesCreate ops Ob (Number (Finite actualDeleteCount))) (\<lambda>A.
       Q (splice_copy_deleted ops Ob A actualStart actualDeleteCount 0) (\<lambda>_.
       Q (Set ops A length_key (Number (Finite actualDeleteCount)) (Boolean True)) (\<lambda>_.
       let itemCount = int (length items) in
       Q (if itemCount < actualDeleteCount then
            Q (splice_move_down ops Ob len actualDeleteCount itemCount actualStart) (\<lambda>_.
            splice_delete_tail ops Ob len actualDeleteCount itemCount len)
          else if itemCount > actualDeleteCount then
            splice_move_up ops Ob actualStart actualDeleteCount itemCount (len - actualDeleteCount)
          else ret ()) (\<lambda>_.
       Q (splice_insert ops Ob actualStart items) (\<lambda>_.
       Q (Set ops Ob length_key
            (Number (Finite (js_add (js_sub len actualDeleteCount) itemCount))) (Boolean True)) (\<lambda>_.
       ret A))))))))))))"

subsection \<open>22.1.3.29 Array.prototype.unshift\<close>

function unshift_move :: "'s abstract_ops \<Rightarrow> Value \<Rightarrow> int \<Rightarrow> int \<Rightarrow> ('s, unit) exec" where
  "unshift_move ops Ob argCount k =
     (if k > 0 then
        Q (HasProperty ops Ob (NumberToString (k - 1))) (\<lambda>fromPresent.
        Q (if fromPresent = Boolean True then
             Q (Get ops Ob (NumberToString (k - 1))) (\<lambda>fromValue.
             Set ops Ob (NumberToString (k + argCount - 1)) fromValue (Boolean True))
           else DeletePropertyOrThrow ops Ob (NumberToString (k + argCount - 1))) (\<lambda>_.
        unshift_move ops Ob argCount (k - 1)))
      else ret ())"
  by pat_completeness auto
termination
  by (relation "measure (\<lambda>(ops, Ob, argCount, k). nat k)") auto

fun unshift_insert :: "'s abstract_ops \<Rightarrow> Value \<Rightarrow> int \<Rightarrow> Value list \<Rightarrow> ('s, unit) exec" where
  "unshift_insert ops Ob j [] = ret ()"
| "unshift_insert ops Ob j (E # items) =
     Q (Set ops Ob (NumberToString j) E (Boolean True)) (\<lambda>_.
     unshift_insert ops Ob (j + 1) items)"

definition ArrayProto_unshift :: "'s abstract_ops \<Rightarrow> Value list \<Rightarrow> Value \<Rightarrow> ('s, Value) exec" where
  "ArrayProto_unshift ops args thisValue =
     Q (ToObject ops thisValue) (\<lambda>Ob.
     Q (Get ops Ob length_key) (\<lambda>lenProp.
     Q (ToLength ops lenProp) (\<lambda>len.
     let argCount = int (length args) in
     Q (if argCount > 0 then
          if js_add len argCount > MAX_SAFE
          then surroundingAgent_Throw ''TypeError'' (Some ''ArrayPastSafeLength'') []
          else
            Q (unshift_move ops Ob argCount len) (\<lambda>_.
            unshift_insert ops Ob 0 args)
        else ret ()) (\<lambda>_.
     Q (Set ops Ob length_key (Number (Finite (js_add len argCount))) (Boolean True)) (\<lambda>_.
     ret (Number (Finite (js_add len argCount))))))))"

subsection \<open>The method table of CreateArrayPrototype\<close>



text \<open>The equations of the loops are unfolded where a proof asks for them, not by
  the simplifier on its own.\<close>

declare concat_elements.simps [simp del]
  copyWithin_loop.simps [simp del]
  fill_loop.simps [simp del]
  filter_loop.simps [simp del]
  FlattenIntoArray_from.simps [simp del]
  map_loop.simps [simp del]
  shift_loop.simps [simp del]
  slice_loop.simps [simp del]
  splice_copy_deleted.simps [simp del]
  splice_move_down.simps [simp del]
  splice_delete_tail.simps [simp del]
  splice_move_up.simps [simp del]
  unshift_move.simps [simp del]

section \<open>A host for the abstract operations: objects with data properties\<close>

text \<open>
  Modelled from the spec: the abstract operations of \<^verbatim>\<open>abstract-ops/all.mjs\<close> and the
  object model of \<^verbatim>\<open>value.mjs\<close>, which are not among the source files.  The host
  follows the specification's property and descriptor model for ordinary and
  array-exotic objects with data properties: OrdinaryGet and OrdinaryHasProperty walk
  the prototype chain, OrdinarySet creates an own data property at the receiver,
  ValidateAndApplyPropertyDescriptor merges a descriptor whose fields may be absent,
  and an array keeps its \<^verbatim>\<open>length\<close> coherent with its index properties.  Accessor
  properties, proxies and function objects are outside this host: no object in it is
  callable or a constructor, so OrdinaryToPrimitive on an object finds no method and
  throws a TypeError.  The conversion of a String to a Number and the sort body are
  parameters of the host.  The scenarios and the witnesses run on this host; the
  general theorems hold for every record of operations.
\<close>

record data_property =
  Value_of :: Value
  Writable :: bool
  Enumerable :: bool
  Configurable :: bool

record descriptor =
  desc_Value :: "Value option"
  desc_Writable :: "bool option"
  desc_Enumerable :: "bool option"
  desc_Configurable :: "bool option"

record object =
  Prototype :: Value
  Extensible :: bool
  isArrayExotic :: bool
  properties :: "(Value \<times> data_property) list"

record host_state =
  heap :: "object list"
  Intrinsics :: "(string \<times> Value) list"

definition intrinsic :: "host_state \<Rightarrow> string \<Rightarrow> Value" where
  "intrinsic s name = (case map_of (Intrinsics s) name of Some v \<Rightarrow> v | None \<Rightarrow> Null)"

definition host_Throw :: "string \<Rightarrow> 'a completion" where
  "host_Throw ty = AbruptCompletion (ThrowCompletion ty None [])"

definition value_desc :: "Value \<Rightarrow> descriptor" where
  "value_desc V =
     \<lparr>desc_Value = Some V, desc_Writable = None, desc_Enumerable = None, desc_Configurable = None\<rparr>"

definition data_desc :: "Value \<Rightarrow> descriptor" where
  "data_desc V =
     \<lparr>desc_Value = Some V, desc_Writable = Some True, desc_Enumerable = Some True,
      desc_Configurable = Some True\<rparr>"

subsection \<open>Array indices\<close>

definition digit_of :: "char \<Rightarrow> int option" where
  "digit_of c = map_of (zip ''0123456789'' [0, 1, 2, 3, 4, 5, 6, 7, 8, 9]) c"

fun parse_digits :: "int \<Rightarrow> string \<Rightarrow> int option" where
  "parse_digits acc [] = Some acc"
| "parse_digits acc (c # cs) =
     (case digit_of c of None \<Rightarrow> None | Some d \<Rightarrow> parse_digits (10 * acc + d) cs)"

text \<open>An array index is a String key that is the canonical decimal form of an
  integer below \<open>2^32 - 1\<close>.\<close>

definition array_index :: "Value \<Rightarrow> int option" where
  "array_index P =
     (case P of
        String s \<Rightarrow>
          (if s = [] then None
           else case parse_digits 0 s of
                  None \<Rightarrow> None
                | Some n \<Rightarrow> if n < 2 ^ 32 - 1 \<and> digits n = s then Some n else None)
      | _ \<Rightarrow> None)"

subsection \<open>Internal methods of ordinary and array-exotic objects\<close>

text \<open>
  The first data property named \<open>P\<close> on the prototype chain from \<open>Ob\<close>.  A chain
  without a cycle visits each object of the heap at most once, so \<open>length h\<close> steps
  reach its end.
\<close>

fun find_property :: "nat \<Rightarrow> object list \<Rightarrow> Value \<Rightarrow> Value \<Rightarrow> data_property option" where
  "find_property 0 h Ob P = None"
| "find_property (Suc n) h Ob P =
     (case Ob of
        Object r \<Rightarrow>
          (if r < length h then
             (case map_of (properties (h ! r)) P of
                Some d \<Rightarrow> Some d
              | None \<Rightarrow> find_property n h (Prototype (h ! r)) P)
           else None)
      | _ \<Rightarrow> None)"

text \<open>ValidateAndApplyPropertyDescriptor for data descriptors: the success flag
  and the object afterwards.\<close>

definition OrdinaryDefineOwnProperty :: "object \<Rightarrow> Value \<Rightarrow> descriptor \<Rightarrow> bool \<times> object" where
  "OrdinaryDefineOwnProperty ob P Desc =
     (case map_of (properties ob) P of
        None \<Rightarrow>
          if \<not> Extensible ob then (False, ob)
          else (True, ob\<lparr>properties := AList.update P
                  \<lparr>Value_of = (case desc_Value Desc of Some v \<Rightarrow> v | None \<Rightarrow> Undefined),
                   Writable = (desc_Writable Desc = Some True),
                   Enumerable = (desc_Enumerable Desc = Some True),
                   Configurable = (desc_Configurable Desc = Some True)\<rparr> (properties ob)\<rparr>)
      | Some current \<Rightarrow>
          if \<not> Configurable current \<and>
             (desc_Configurable Desc = Some True \<or>
              desc_Enumerable Desc = Some (\<not> Enumerable current)) then (False, ob)
          else if \<not> Configurable current \<and> \<not> Writable current \<and>
             (desc_Writable Desc = Some True \<or>
              (desc_Value Desc \<noteq> None \<and> desc_Value Desc \<noteq> Some (Value_of current))) then (False, ob)
          else (True, ob\<lparr>properties := AList.update P
                  \<lparr>Value_of = (case desc_Value Desc of Some v \<Rightarrow> v | None \<Rightarrow> Value_of current),
                   Writable = (case desc_Writable Desc of Some b \<Rightarrow> b | None \<Rightarrow> Writable current),
                   Enumerable = (case desc_Enumerable Desc of Some b \<Rightarrow> b | None \<Rightarrow> Enumerable current),
                   Configurable =
                     (case desc_Configurable Desc of Some b \<Rightarrow> b | None \<Rightarrow> Configurable current)\<rparr>
                  (properties ob)\<rparr>))"

definition OrdinaryDelete :: "object \<Rightarrow> Value \<Rightarrow> bool \<times> object" where
  "OrdinaryDelete ob P =
     (case map_of (properties ob) P of
        None \<Rightarrow> (True, ob)
      | Some d \<Rightarrow>
          if Configurable d then (True, ob\<lparr>properties := AList.delete P (properties ob)\<rparr>)
          else (False, ob))"

definition array_length :: "object \<Rightarrow> int" where
  "array_length ob =
     (case map_of (properties ob) length_key of
        Some d \<Rightarrow> (case Value_of d of Number (Finite n) \<Rightarrow> n | _ \<Rightarrow> 0)
      | None \<Rightarrow> 0)"

definition length_writable :: "object \<Rightarrow> bool" where
  "length_writable ob =
     (case map_of (properties ob) length_key of Some d \<Rightarrow> Writable d | None \<Rightarrow> False)"

definition set_length_value :: "object \<Rightarrow> int \<Rightarrow> object" where
  "set_length_value ob n =
     (case map_of (properties ob) length_key of
        Some d \<Rightarrow> ob\<lparr>properties := AList.update length_key (d\<lparr>Value_of := Number (Finite n)\<rparr>)
                      (properties ob)\<rparr>
      | None \<Rightarrow> ob)"

text \<open>The own index keys at or above \<open>newLen\<close>, in descending order.\<close>

definition indices_from :: "object \<Rightarrow> int \<Rightarrow> int list" where
  "indices_from ob newLen =
     rev (sort (concat (map (\<lambda>(P, d). case array_index P of
                                         Some i \<Rightarrow> if i \<ge> newLen then [i] else []
                                       | None \<Rightarrow> [])
                            (properties ob))))"

text \<open>Deleting them in that order; a property that is not configurable stops the
  deletion, and \<^verbatim>\<open>length\<close> is left one above it.\<close>

fun delete_indices :: "object \<Rightarrow> int list \<Rightarrow> bool \<times> object" where
  "delete_indices ob [] = (True, ob)"
| "delete_indices ob (i # is) =
     (case OrdinaryDelete ob (NumberToString i) of
        (True, ob') \<Rightarrow> delete_indices ob' is
      | (False, ob') \<Rightarrow> (False, set_length_value ob' (i + 1)))"

text \<open>ToNumber on the values of this host.\<close>

definition host_ToNumber :: "(string \<Rightarrow> number) \<Rightarrow> Value \<Rightarrow> number completion" where
  "host_ToNumber StringToNumber v =
     (case v of
        Undefined \<Rightarrow> NormalCompletion NaN
      | Null \<Rightarrow> NormalCompletion (Finite 0)
      | Boolean b \<Rightarrow> NormalCompletion (Finite (if b then 1 else 0))
      | Number n \<Rightarrow> NormalCompletion n
      | String s \<Rightarrow> NormalCompletion (StringToNumber s)
      | _ \<Rightarrow> host_Throw ''TypeError'')"

definition ArraySetLength ::
  "(string \<Rightarrow> number) \<Rightarrow> object \<Rightarrow> descriptor \<Rightarrow> bool completion \<times> object" where
  "ArraySetLength StringToNumber A Desc =
     (case desc_Value Desc of
        None \<Rightarrow> (case OrdinaryDefineOwnProperty A length_key Desc of
                   (b, A') \<Rightarrow> (NormalCompletion b, A'))
      | Some v \<Rightarrow>
          (case host_ToNumber StringToNumber v of
             AbruptCompletion c \<Rightarrow> (AbruptCompletion c, A)
           | NormalCompletion (Finite newLen) \<Rightarrow>
               if newLen < 0 \<or> newLen > 2 ^ 32 - 1 then (host_Throw ''RangeError'', A)
               else
                 let newLenDesc = Desc\<lparr>desc_Value := Some (Number (Finite newLen))\<rparr>;
                     oldLen = array_length A in
                 if newLen \<ge> oldLen then
                   (case OrdinaryDefineOwnProperty A length_key newLenDesc of
                      (b, A') \<Rightarrow> (NormalCompletion b, A'))
                 else if \<not> length_writable A then (NormalCompletion False, A)
                 else
                   let newWritable = (desc_Writable Desc \<noteq> Some False) in
                   (case OrdinaryDefineOwnProperty A length_key
                           (newLenDesc\<lparr>desc_Writable := Some True\<rparr>) of
                      (False, A') \<Rightarrow> (NormalCompletion False, A)
                    | (True, A') \<Rightarrow>
                        (case delete_indices A' (indices_from A' newLen) of
                           (False, A'') \<Rightarrow>
                             (NormalCompletion False,
                              if newWritable then A''
                              else snd (OrdinaryDefineOwnProperty A'' length_key
                                     \<lparr>desc_Value = None, desc_Writable = Some False,
                                      desc_Enumerable = None, desc_Configurable = None\<rparr>))
                         | (True, A'') \<Rightarrow>
                             (NormalCompletion True,
                              if newWritable then A''
                              else snd (OrdinaryDefineOwnProperty A'' length_key
                                     \<lparr>desc_Value = None, desc_Writable = Some False,
                                      desc_Enumerable = None, desc_Configurable = None\<rparr>))))
           | NormalCompletion _ \<Rightarrow> (host_Throw ''RangeError'', A)))"

definition ArrayDefineOwnProperty ::
  "(string \<Rightarrow> number) \<Rightarrow> object \<Rightarrow> Value \<Rightarrow> descriptor \<Rightarrow> bool completion \<times> object" where
  "ArrayDefineOwnProperty StringToNumber A P Desc =
     (if P = length_key then ArraySetLength StringToNumber A Desc
      else case array_index P of
        Some index \<Rightarrow>
          let oldLen = array_length A in
          if index \<ge> oldLen \<and> \<not> length_writable A then (NormalCompletion False, A)
          else
            (case OrdinaryDefineOwnProperty A P Desc of
               (False, A') \<Rightarrow> (NormalCompletion False, A)
             | (True, A') \<Rightarrow>
                 (NormalCompletion True,
                  if index \<ge> oldLen then set_length_value A' (index + 1) else A'))
      | None \<Rightarrow> (case OrdinaryDefineOwnProperty A P Desc of (b, A') \<Rightarrow> (NormalCompletion b, A')))"

text \<open>\<^verbatim>\<open>O.[[DefineOwnProperty]](P, Desc)\<close>, dispatched on the kind of the object.\<close>

definition DefineOwnProperty ::
  "(string \<Rightarrow> number) \<Rightarrow> object \<Rightarrow> Value \<Rightarrow> descriptor \<Rightarrow> bool completion \<times> object" where
  "DefineOwnProperty StringToNumber ob P Desc =
     (if isArrayExotic ob then ArrayDefineOwnProperty StringToNumber ob P Desc
      else case OrdinaryDefineOwnProperty ob P Desc of (b, ob') \<Rightarrow> (NormalCompletion b, ob'))"

subsection \<open>The operations\<close>

definition host_ToObject :: "Value \<Rightarrow> host_state \<Rightarrow> Value completion \<times> host_state" where
  "host_ToObject v s =
     (let wrapper = (\<lambda>proto props.
            (NormalCompletion (Object (length (heap s))),
             s\<lparr>heap := heap s @ [\<lparr>Prototype = intrinsic s proto, Extensible = True,
                                  isArrayExotic = False, properties = props\<rparr>]\<rparr>)) in
      case v of
        Undefined \<Rightarrow> (host_Throw ''TypeError'', s)
      | Null \<Rightarrow> (host_Throw ''TypeError'', s)
      | Boolean b \<Rightarrow> wrapper ''%BooleanPrototype%'' []
      | Number n \<Rightarrow> wrapper ''%NumberPrototype%'' []
      | Symbol d \<Rightarrow> wrapper ''%SymbolPrototype%'' []
      | BigInt i \<Rightarrow> wrapper ''%BigIntPrototype%'' []
      | String str \<Rightarrow> wrapper ''%StringPrototype%''
          (map (\<lambda>i. (NumberToString (int i),
                      \<lparr>Value_of = String [str ! i], Writable = False, Enumerable = True,
                       Configurable = False\<rparr>)) [0 ..< length str]
           @ [(length_key, \<lparr>Value_of = Number (Finite (int (length str))), Writable = False,
                            Enumerable = False, Configurable = False\<rparr>)])
      | Object r \<Rightarrow> (NormalCompletion v, s)
      | ErrorObject ty m as \<Rightarrow> (NormalCompletion v, s))"

definition host_Get :: "Value \<Rightarrow> Value \<Rightarrow> host_state \<Rightarrow> Value completion \<times> host_state" where
  "host_Get Ob P s =
     (case Ob of
        Object r \<Rightarrow>
          (if r < length (heap s) then
             (case find_property (length (heap s)) (heap s) Ob P of
                Some d \<Rightarrow> (NormalCompletion (Value_of d), s)
              | None \<Rightarrow> (NormalCompletion Undefined, s))
           else (host_Throw ''TypeError'', s))
      | _ \<Rightarrow> (host_Throw ''TypeError'', s))"

definition host_HasProperty :: "Value \<Rightarrow> Value \<Rightarrow> host_state \<Rightarrow> Value completion \<times> host_state" where
  "host_HasProperty Ob P s =
     (case Ob of
        Object r \<Rightarrow>
          (if r < length (heap s) then
             (NormalCompletion (Boolean (find_property (length (heap s)) (heap s) Ob P \<noteq> None)), s)
           else (host_Throw ''TypeError'', s))
      | _ \<Rightarrow> (host_Throw ''TypeError'', s))"

text \<open>The store of an object back into the heap.\<close>

definition put_object :: "host_state \<Rightarrow> nat \<Rightarrow> object \<Rightarrow> host_state" where
  "put_object s r ob = s\<lparr>heap := (heap s)[r := ob]\<rparr>"

text \<open>\<^verbatim>\<open>Set(O, P, V, Throw)\<close>: OrdinarySet with the object as receiver, and a
  TypeError when it fails and \<^verbatim>\<open>Throw\<close> is true.\<close>

definition host_Set ::
  "(string \<Rightarrow> number) \<Rightarrow> Value \<Rightarrow> Value \<Rightarrow> Value \<Rightarrow> Value \<Rightarrow> host_state
     \<Rightarrow> Value completion \<times> host_state" where
  "host_Set StringToNumber Ob P V T s =
     (case Ob of
        Object r \<Rightarrow>
          (if r < length (heap s) then
             (let ob = heap s ! r;
                  inherited = find_property (length (heap s)) (heap s) Ob P;
                  (success, ob') =
                    (if (case inherited of Some d \<Rightarrow> \<not> Writable d | None \<Rightarrow> False)
                     then (NormalCompletion False, ob)
                     else case map_of (properties ob) P of
                            Some existing \<Rightarrow> DefineOwnProperty StringToNumber ob P (value_desc V)
                          | None \<Rightarrow> DefineOwnProperty StringToNumber ob P (data_desc V))
              in case success of
                   AbruptCompletion c \<Rightarrow> (AbruptCompletion c, put_object s r ob')
                 | NormalCompletion b \<Rightarrow>
                     if \<not> b \<and> T = Boolean True then (host_Throw ''TypeError'', put_object s r ob')
                     else (NormalCompletion (Boolean b), put_object s r ob'))
           else (host_Throw ''TypeError'', s))
      | _ \<Rightarrow> (host_Throw ''TypeError'', s))"

definition host_CreateDataPropertyOrThrow ::
  "(string \<Rightarrow> number) \<Rightarrow> Value \<Rightarrow> Value \<Rightarrow> Value \<Rightarrow> host_state
     \<Rightarrow> Value completion \<times> host_state" where
  "host_CreateDataPropertyOrThrow StringToNumber Ob P V s =
     (case Ob of
        Object r \<Rightarrow>
          (if r < length (heap s) then
             (case DefineOwnProperty StringToNumber (heap s ! r) P (data_desc V) of
                (AbruptCompletion c, ob') \<Rightarrow> (AbruptCompletion c, put_object s r ob')
              | (NormalCompletion b, ob') \<Rightarrow>
                  if b then (NormalCompletion (Boolean True), put_object s r ob')
                  else (host_Throw ''TypeError'', put_object s r ob'))
           else (host_Throw ''TypeError'', s))
      | _ \<Rightarrow> (host_Throw ''TypeError'', s))"

definition host_DeletePropertyOrThrow ::
  "Value \<Rightarrow> Value \<Rightarrow> host_state \<Rightarrow> Value completion \<times> host_state" where
  "host_DeletePropertyOrThrow Ob P s =
     (case Ob of
        Object r \<Rightarrow>
          (if r < length (heap s) then
             (case OrdinaryDelete (heap s ! r) P of
                (True, ob') \<Rightarrow> (NormalCompletion (Boolean True), put_object s r ob')
              | (False, ob') \<Rightarrow> (host_Throw ''TypeError'', s))
           else (host_Throw ''TypeError'', s))
      | _ \<Rightarrow> (host_Throw ''TypeError'', s))"

text \<open>ToInteger and ToLength; ToLength clamps to \<open>[0, 2^53 - 1]\<close>.\<close>

definition host_ToInteger ::
  "(string \<Rightarrow> number) \<Rightarrow> Value \<Rightarrow> host_state \<Rightarrow> extint completion \<times> host_state" where
  "host_ToInteger StringToNumber v s =
     (case host_ToNumber StringToNumber v of
        AbruptCompletion c \<Rightarrow> (AbruptCompletion c, s)
      | NormalCompletion NaN \<Rightarrow> (NormalCompletion (Fin 0), s)
      | NormalCompletion (Finite i) \<Rightarrow> (NormalCompletion (Fin i), s)
      | NormalCompletion PosInfinity \<Rightarrow> (NormalCompletion PosInf, s)
      | NormalCompletion NegInfinity \<Rightarrow> (NormalCompletion NegInf, s))"

definition host_ToLength ::
  "(string \<Rightarrow> number) \<Rightarrow> Value \<Rightarrow> host_state \<Rightarrow> int completion \<times> host_state" where
  "host_ToLength StringToNumber v s =
     (case host_ToInteger StringToNumber v s of
        (AbruptCompletion c, s') \<Rightarrow> (AbruptCompletion c, s')
      | (NormalCompletion (Fin len), s') \<Rightarrow>
          (NormalCompletion (if len \<le> 0 then 0 else min len MAX_SAFE), s')
      | (NormalCompletion PosInf, s') \<Rightarrow> (NormalCompletion MAX_SAFE, s')
      | (NormalCompletion NegInf, s') \<Rightarrow> (NormalCompletion 0, s'))"

definition is_array :: "host_state \<Rightarrow> Value \<Rightarrow> bool" where
  "is_array s v =
     (case v of Object r \<Rightarrow> r < length (heap s) \<and> isArrayExotic (heap s ! r) | _ \<Rightarrow> False)"

definition host_IsArray :: "Value \<Rightarrow> host_state \<Rightarrow> Value completion \<times> host_state" where
  "host_IsArray v s = (NormalCompletion (Boolean (is_array s v)), s)"

definition host_ToBoolean :: "Value \<Rightarrow> Value" where
  "host_ToBoolean v =
     Boolean (case v of
        Undefined \<Rightarrow> False
      | Null \<Rightarrow> False
      | Boolean b \<Rightarrow> b
      | Number n \<Rightarrow> n \<noteq> Finite 0 \<and> n \<noteq> NaN
      | String str \<Rightarrow> str \<noteq> []
      | BigInt i \<Rightarrow> i \<noteq> 0
      | _ \<Rightarrow> True)"

definition host_IsConcatSpreadable :: "Value \<Rightarrow> host_state \<Rightarrow> Value completion \<times> host_state" where
  "host_IsConcatSpreadable v s =
     (if Type v \<noteq> ''Object'' then (NormalCompletion (Boolean False), s)
      else case host_Get v (Symbol ''Symbol.isConcatSpreadable'') s of
             (AbruptCompletion c, s') \<Rightarrow> (AbruptCompletion c, s')
           | (NormalCompletion spreadable, s') \<Rightarrow>
               if spreadable \<noteq> Undefined then (NormalCompletion (host_ToBoolean spreadable), s')
               else host_IsArray v s')"

text \<open>ArrayCreate: a new array-exotic object whose prototype is the realm's
  \<^verbatim>\<open>%ArrayPrototype%\<close>.\<close>

definition ArrayCreate :: "Value \<Rightarrow> host_state \<Rightarrow> Value completion \<times> host_state" where
  "ArrayCreate len s =
     (case len of
        Number (Finite n) \<Rightarrow>
          if n > 2 ^ 32 - 1 then (host_Throw ''RangeError'', s)
          else (NormalCompletion (Object (length (heap s))),
                s\<lparr>heap := heap s @
                    [\<lparr>Prototype = intrinsic s ''%ArrayPrototype%'', Extensible = True,
                      isArrayExotic = True,
                      properties = [(length_key, \<lparr>Value_of = Number (Finite n), Writable = True,
                                                  Enumerable = False, Configurable = False\<rparr>)]\<rparr>]\<rparr>)
      | _ \<Rightarrow> (host_Throw ''RangeError'', s))"

text \<open>ArraySpeciesCreate.  No object of this host is a constructor: a
  \<^verbatim>\<open>constructor\<close> whose species is neither undefined nor null is rejected.\<close>

definition host_ArraySpeciesCreate ::
  "Value \<Rightarrow> Value \<Rightarrow> host_state \<Rightarrow> Value completion \<times> host_state" where
  "host_ArraySpeciesCreate originalArray len s =
     (if \<not> is_array s originalArray then ArrayCreate len s
      else case host_Get originalArray (String ''constructor'') s of
             (AbruptCompletion c, s') \<Rightarrow> (AbruptCompletion c, s')
           | (NormalCompletion C, s') \<Rightarrow>
               (case (if Type C = ''Object'' then host_Get C (Symbol ''Symbol.species'') s'
                      else (NormalCompletion C, s')) of
                  (AbruptCompletion c, s'') \<Rightarrow> (AbruptCompletion c, s'')
                | (NormalCompletion C', s'') \<Rightarrow>
                    if C' = Undefined \<or> (Type C = ''Object'' \<and> C' = Null) then ArrayCreate len s''
                    else (host_Throw ''TypeError'', s'')))"

definition host_ops ::
  "(string \<Rightarrow> number) \<Rightarrow> (Value \<Rightarrow> int \<Rightarrow> Value \<Rightarrow> host_state \<Rightarrow> Value completion \<times> host_state)
     \<Rightarrow> host_state abstract_ops" where
  "host_ops StringToNumber sortBody =
     \<lparr>ToObject_op = host_ToObject,
      Get_op = host_Get,
      Set_op = host_Set StringToNumber,
      HasProperty_op = host_HasProperty,
      DeletePropertyOrThrow_op = host_DeletePropertyOrThrow,
      CreateDataPropertyOrThrow_op = host_CreateDataPropertyOrThrow StringToNumber,
      ToLength_op = host_ToLength StringToNumber,
      ToInteger_op = host_ToInteger StringToNumber,
      IsArray_op = host_IsArray,
      IsConcatSpreadable_op = host_IsConcatSpreadable,
      ArraySpeciesCreate_op = host_ArraySpeciesCreate,
      Call_op = (\<lambda>F V argumentsList s. (host_Throw ''TypeError'', s)),
      ArrayProto_sortBody_op = sortBody,
      IsCallable_op = (\<lambda>v s. Boolean False),
      ToBoolean_op = host_ToBoolean\<rparr>"

subsection \<open>The arrays of the scenarios\<close>

text \<open>
  An array literal: an array-exotic object whose elements are own data properties,
  writable, enumerable and configurable, and whose \<^verbatim>\<open>length\<close> is writable only.
  \<open>std_ops\<close> is the host with a String conversion that is never reached by the
  scenarios (every String reads as NaN) and a sort body that returns the object.
\<close>

definition element_property :: "Value \<Rightarrow> data_property" where
  "element_property v = \<lparr>Value_of = v, Writable = True, Enumerable = True, Configurable = True\<rparr>"

definition length_property :: "int \<Rightarrow> data_property" where
  "length_property n =
     \<lparr>Value_of = Number (Finite n), Writable = True, Enumerable = False, Configurable = False\<rparr>"

definition array_literal :: "Value \<Rightarrow> Value list \<Rightarrow> object" where
  "array_literal proto elements =
     \<lparr>Prototype = proto, Extensible = True, isArrayExotic = True,
      properties = map (\<lambda>i. (NumberToString (int i), element_property (elements ! i)))
                     [0 ..< length elements]
                   @ [(length_key, length_property (int (length elements)))]\<rparr>"

definition std_ops :: "host_state abstract_ops" where
  "std_ops = host_ops (\<lambda>str. NaN) (\<lambda>obj len comparefn s. (NormalCompletion obj, s))"

definition num :: "int \<Rightarrow> Value" where
  "num i = Number (Finite i)"

text \<open>
  The heap of the first scenario: object 0 is the realm's \<^verbatim>\<open>%ArrayPrototype%\<close> (an
  array-exotic object without elements) and object 1 is \<^verbatim>\<open>[1,2,3]\<close>.  The heap of the
  second: objects 1 to 4 are \<^verbatim>\<open>[1,2]\<close>, \<^verbatim>\<open>[4]\<close>, \<^verbatim>\<open>[3,[4]]\<close> and
  \<^verbatim>\<open>[[1,2],[3,[4]]]\<close>.
\<close>

definition realm_123 :: host_state where
  "realm_123 =
     \<lparr>heap = [array_literal Null [], array_literal (Object 0) [num 1, num 2, num 3]],
      Intrinsics = [(''%ArrayPrototype%'', Object 0)]\<rparr>"

definition realm_nested :: host_state where
  "realm_nested =
     \<lparr>heap = [array_literal Null [],
              array_literal (Object 0) [num 1, num 2],
              array_literal (Object 0) [num 4],
              array_literal (Object 0) [num 3, Object 2],
              array_literal (Object 0) [Object 1, Object 3]],
      Intrinsics = [(''%ArrayPrototype%'', Object 0)]\<rparr>"

text \<open>The own data property of an object of the heap, and the values of a new
  array's index properties in the order of their creation.\<close>

definition own_property :: "host_state \<Rightarrow> nat \<Rightarrow> Value \<Rightarrow> data_property option" where
  "own_property s r P = (if r < length (heap s) then map_of (properties (heap s ! r)) P else None)"

definition own_length :: "host_state \<Rightarrow> nat \<Rightarrow> Value option" where
  "own_length s r = map_option Value_of (own_property s r length_key)"

definition index_properties :: "host_state \<Rightarrow> nat \<Rightarrow> (Value \<times> Value) list" where
  "index_properties s r =
     (if r < length (heap s)
      then map (\<lambda>(P, d). (P, Value_of d)) (filter (\<lambda>(P, d). P \<noteq> length_key) (properties (heap s ! r)))
      else [])"

section \<open>The command line\<close>

text \<open>
  The command-line script (\<^verbatim>\<open>src/unnamed/part_000\<close>).  What it uses of Node.js is a
  record of functions: \<^verbatim>\<open>path.resolve\<close>, \<^verbatim>\<open>path.dirname\<close>, \<^verbatim>\<open>fs.existsSync\<close> and
  \<^verbatim>\<open>fs.readFileSync\<close>, which raises a host exception where the record gives \<open>None\<close>
  (a directory, a file that cannot be read).  The file system does not change while
  the script runs.  Of the parser the record holds what the module loader needs: the
  syntax error of a source text, if it has one, and the module specifiers its import
  declarations request, in source order.
\<close>

record node_env =
  path_resolve :: "string \<Rightarrow> string \<Rightarrow> string"
  path_dirname :: "string \<Rightarrow> string"
  fs_existsSync :: "string \<Rightarrow> bool"
  fs_readFileSync :: "string \<Rightarrow> string option"
  module_syntax_error :: "string \<Rightarrow> string \<Rightarrow> abrupt option"
  requestedModules :: "string \<Rightarrow> string list"

text \<open>
  A module record has an identity: two records made from the same file are two
  modules.  The realm of \<^verbatim>\<open>createRealm\<close> holds the module entry, the module cache (a
  \<^verbatim>\<open>Map\<close> from resolved paths to what \<^verbatim>\<open>createSourceTextModule\<close> returned) and the
  number of modules made so far.
\<close>

record Module =
  module_id :: nat
  specifier :: string
  sourceText :: string

record cli_realm =
  moduleEntry :: "Module option"
  moduleCache :: "(string \<times> Module completion) list"
  modules_created :: nat

definition createRealm :: cli_realm where
  "createRealm = \<lparr>moduleEntry = None, moduleCache = [], modules_created = 0\<rparr>"

text \<open>What a call of a host function gives: a returned value, or a host exception
  that leaves the function.  A resolver is the hook a realm is made with; \<open>None\<close> is
  a call that does not return.\<close>

datatype 'a host_result = Returned 'a | HostException

type_synonym resolver =
  "cli_realm \<Rightarrow> Module \<Rightarrow> string \<Rightarrow> (Module completion host_result \<times> cli_realm) option"

text \<open>
  Modelled from the spec: \<^verbatim>\<open>realm.createSourceTextModule(specifier, source)\<close> of the
  embedder API returns a new Module, or a throw completion when the source does not
  parse as a module.  The host callback contract has the realm's hook invoked
  synchronously during the parse of a module: with the new module as the referencing
  module, once for each module specifier the source requests, in source order.  A
  throw completion of the hook is what \<^verbatim>\<open>createSourceTextModule\<close> then returns, and a
  host exception raised inside the hook leaves \<^verbatim>\<open>createSourceTextModule\<close> as well.
\<close>

fun resolve_requests ::
  "resolver \<Rightarrow> cli_realm \<Rightarrow> Module \<Rightarrow> string list \<Rightarrow> (unit completion host_result \<times> cli_realm) option"
where
  "resolve_requests hook realm m [] = Some (Returned (NormalCompletion ()), realm)"
| "resolve_requests hook realm m (spec # specs) =
     (case hook realm m spec of
        None \<Rightarrow> None
      | Some (HostException, realm') \<Rightarrow> Some (HostException, realm')
      | Some (Returned (AbruptCompletion c), realm') \<Rightarrow> Some (Returned (AbruptCompletion c), realm')
      | Some (Returned (NormalCompletion imported), realm') \<Rightarrow> resolve_requests hook realm' m specs)"

definition createSourceTextModule ::
  "node_env \<Rightarrow> resolver \<Rightarrow> cli_realm \<Rightarrow> string \<Rightarrow> string
     \<Rightarrow> (Module completion host_result \<times> cli_realm) option" where
  "createSourceTextModule env hook realm spec source =
     (case module_syntax_error env spec source of
        Some c \<Rightarrow> Some (Returned (AbruptCompletion c), realm)
      | None \<Rightarrow>
          let m = \<lparr>module_id = modules_created realm, specifier = spec, sourceText = source\<rparr> in
          (case resolve_requests hook (realm\<lparr>modules_created := Suc (modules_created realm)\<rparr>) m
                  (requestedModules env source) of
             None \<Rightarrow> None
           | Some (HostException, realm') \<Rightarrow> Some (HostException, realm')
           | Some (Returned (AbruptCompletion c), realm') \<Rightarrow> Some (Returned (AbruptCompletion c), realm')
           | Some (Returned (NormalCompletion u), realm') \<Rightarrow> Some (Returned (NormalCompletion m), realm')))"

text \<open>
  The hook of \<^verbatim>\<open>createRealm\<close>, lines 28 to 43.  It calls \<^verbatim>\<open>createSourceTextModule\<close>,
  which calls the hook: \<open>fuel\<close> bounds the nesting of these calls, and the hook that is
  out of fuel does not return.  The module is cached at line 41, after
  \<^verbatim>\<open>createSourceTextModule\<close> has returned.
\<close>

primrec resolveImportedModule :: "nat \<Rightarrow> node_env \<Rightarrow> resolver" where
  "resolveImportedModule 0 env = (\<lambda>realm referencingModule spec. None)"
| "resolveImportedModule (Suc fuel) env = (\<lambda>realm referencingModule spec.
     let resolved = path_resolve env (path_dirname env (specifier referencingModule)) spec in
     if moduleEntry realm \<noteq> None \<and> resolved = specifier (the (moduleEntry realm))
     then Some (Returned (NormalCompletion (the (moduleEntry realm))), realm)
     else case map_of (moduleCache realm) resolved of
       Some m \<Rightarrow> Some (Returned m, realm)
     | None \<Rightarrow>
         if \<not> fs_existsSync env resolved
         then Some (Returned (AbruptCompletion
                 (ThrowCompletion ''Error'' (Some (''Cannot resolve module '' @ spec)) [])), realm)
         else case fs_readFileSync env resolved of
                None \<Rightarrow> Some (HostException, realm)
              | Some source \<Rightarrow>
                  (case createSourceTextModule env (resolveImportedModule fuel env) realm resolved source of
                     None \<Rightarrow> None
                   | Some (HostException, realm') \<Rightarrow> Some (HostException, realm')
                   | Some (Returned m, realm') \<Rightarrow>
                       Some (Returned m,
                             realm'\<lparr>moduleCache := AList.update resolved m (moduleCache realm')\<rparr>)))"

text \<open>
  Lines 172 to 178 for a module: the input file is read, its module is made by
  \<^verbatim>\<open>createSourceTextModule\<close>, and only then does line 178 make it the realm's module
  entry.
\<close>

definition load_entry ::
  "nat \<Rightarrow> node_env \<Rightarrow> cli_realm \<Rightarrow> string \<Rightarrow> string
     \<Rightarrow> (Module completion host_result \<times> cli_realm) option" where
  "load_entry fuel env realm resolved source =
     (case createSourceTextModule env (resolveImportedModule fuel env) realm resolved source of
        None \<Rightarrow> None
      | Some (HostException, realm') \<Rightarrow> Some (HostException, realm')
      | Some (Returned (AbruptCompletion c), realm') \<Rightarrow> Some (Returned (AbruptCompletion c), realm')
      | Some (Returned (NormalCompletion m), realm') \<Rightarrow>
          Some (Returned (NormalCompletion m), realm'\<lparr>moduleEntry := Some m\<rparr>))"

subsection \<open>Running an input file\<close>

text \<open>
  The engine behind the embedder API, as far as the script's last branch uses it:
  \<^verbatim>\<open>realm.evaluateScript\<close>, \<^verbatim>\<open>realm.createSourceTextModule\<close>, \<^verbatim>\<open>module.Link\<close>,
  \<^verbatim>\<open>module.Evaluate\<close> (a promise, of which the script reads \<^verbatim>\<open>PromiseState\<close> and
  \<^verbatim>\<open>PromiseResult\<close>), \<^verbatim>\<open>Abstract.Call\<close> of the realm's intrinsic
  \<^verbatim>\<open>Error.prototype.toString\<close>, and \<^verbatim>\<open>inspect\<close>.
\<close>

record promise =
  PromiseState :: string
  PromiseResult :: Value

datatype evaluation_result = ScriptResult Value | EvaluationPromise promise

record engine =
  evaluateScript :: "string \<Rightarrow> Value completion"
  createSourceTextModule_api :: "string \<Rightarrow> string \<Rightarrow> Module completion"
  Link :: "Module \<Rightarrow> Value completion"
  Evaluate :: "Module \<Rightarrow> promise completion"
  Call_errorToString :: "Value \<Rightarrow> Value completion"
  inspect :: "evaluation_result completion \<Rightarrow> string"

text \<open>How the process ends: \<^verbatim>\<open>process.exit(code)\<close> after the text written to stderr,
  or a host exception that nothing catches.\<close>

datatype process_end = Exit int string | UncaughtHostException

text \<open>Lines 171 to 191: the completion of the evaluation.  \<^verbatim>\<open>module_flag\<close> is
  \<^verbatim>\<open>argv.m || argv.module\<close>, \<^verbatim>\<open>resolved\<close> is \<^verbatim>\<open>path.resolve(lastArg)\<close>.\<close>

definition endsWith :: "string \<Rightarrow> string \<Rightarrow> bool" where
  "endsWith str suffix = (length suffix \<le> length str \<and> drop (length str - length suffix) str = suffix)"

definition evaluate_input ::
  "engine \<Rightarrow> bool \<Rightarrow> string \<Rightarrow> string \<Rightarrow> string \<Rightarrow> evaluation_result completion" where
  "evaluate_input eng module_flag lastArg resolved source =
     (if module_flag \<or> endsWith lastArg ''.mjs'' then
        (case createSourceTextModule_api eng resolved source of
           AbruptCompletion c \<Rightarrow> AbruptCompletion c
         | NormalCompletion module \<Rightarrow>
             (case Link eng module of
                AbruptCompletion c \<Rightarrow> AbruptCompletion c
              | NormalCompletion linked \<Rightarrow>
                  (case Evaluate eng module of
                     AbruptCompletion c \<Rightarrow> AbruptCompletion c
                   | NormalCompletion p \<Rightarrow>
                       if PromiseState p = ''rejected''
                       then AbruptCompletion (Abrupt Throw (PromiseResult p) None)
                       else NormalCompletion (EvaluationPromise p))))
      else (case evaluateScript eng source of
              AbruptCompletion c \<Rightarrow> AbruptCompletion c
            | NormalCompletion v \<Rightarrow> NormalCompletion (ScriptResult v)))"

text \<open>Lines 192 to 204.  \<^verbatim>\<open>.stringValue()\<close> is a method of String values: on what
  \<^verbatim>\<open>Abstract.Call\<close> returned otherwise, an abrupt completion or another Value, the
  call of the missing method is a host TypeError, raised before anything is written.\<close>

definition report_result :: "engine \<Rightarrow> evaluation_result completion \<Rightarrow> process_end" where
  "report_result eng result =
     (case result of
        AbruptCompletion c \<Rightarrow>
          (if Type (cvalue c) = ''Object'' then
             (case Call_errorToString eng (cvalue c) of
                NormalCompletion (String inspected) \<Rightarrow> Exit 1 (inspected @ [CHR 0x0A])
              | _ \<Rightarrow> UncaughtHostException)
           else Exit 1 (inspect eng result @ [CHR 0x0A]))
      | NormalCompletion v \<Rightarrow> Exit 0 [])"

definition run_input_file :: "engine \<Rightarrow> bool \<Rightarrow> string \<Rightarrow> string \<Rightarrow> string \<Rightarrow> process_end" where
  "run_input_file eng module_flag lastArg resolved source =
     report_result eng (evaluate_input eng module_flag lastArg resolved source)"

text \<open>
  An engine for the script \<^verbatim>\<open>throw { name: Symbol() };\<close>: evaluation completes with a
  throw completion that carries the object (object 0), and \<^verbatim>\<open>Error.prototype.toString\<close>
  on it completes abruptly, because the \<^verbatim>\<open>name\<close> it converts to a String is a Symbol.
\<close>

definition engine_name_symbol :: engine where
  "engine_name_symbol =
     \<lparr>evaluateScript = (\<lambda>source. AbruptCompletion (Abrupt Throw (Object 0) None)),
      createSourceTextModule_api = (\<lambda>spec source. AbruptCompletion (ThrowCompletion ''SyntaxError'' None [])),
      Link = (\<lambda>m. NormalCompletion Undefined),
      Evaluate = (\<lambda>m. NormalCompletion \<lparr>PromiseState = ''fulfilled'', PromiseResult = Undefined\<rparr>),
      Call_errorToString = (\<lambda>v. AbruptCompletion (ThrowCompletion ''TypeError'' None [])),
      inspect = (\<lambda>r. ''inspected'')\<rparr>"

text \<open>A file system with one module, \<^verbatim>\<open>/app/b.mjs\<close>, and the module that
  \<^verbatim>\<open>createSourceTextModule\<close> makes first in a new realm from an input file
  \<^verbatim>\<open>/app/a.mjs\<close> that imports it.\<close>

definition node_example :: node_env where
  "node_example =
     \<lparr>path_resolve = (\<lambda>dir spec. dir @ ''/'' @ spec),
      path_dirname = (\<lambda>p. ''/app''),
      fs_existsSync = (\<lambda>p. p = ''/app/b.mjs''),
      fs_readFileSync = (\<lambda>p. if p = ''/app/b.mjs'' then Some ''export {}'' else None),
      module_syntax_error = (\<lambda>spec source. None),
      requestedModules = (\<lambda>source. if source = ''import b'' then [''b.mjs''] else [])\<rparr>"

definition module_a :: Module where
  "module_a = \<lparr>module_id = 0, specifier = ''/app/a.mjs'', sourceText = ''import b''\<rparr>"


section \<open>Predicates on logs\<close>

text \<open>Whether an event of the log is a call of \<^verbatim>\<open>Call\<close>, that is, whether a callback
  was invoked.\<close>

fun is_Call_called :: "event \<Rightarrow> bool" where
  "is_Call_called (Call_called F V as r) = True"
| "is_Call_called _ = False"

text \<open>An ordinary object with \<^verbatim>\<open>length\<close> equal to \<open>2^53 - 1\<close> and no elements, alone on
  the heap.\<close>

definition realm_max_length :: host_state where
  "realm_max_length =
     \<lparr>heap = [\<lparr>Prototype = Null, Extensible = True, isArrayExotic = False,
               properties = [(length_key, element_property (num MAX_SAFE))]\<rparr>],
      Intrinsics = []\<rparr>"

subsection \<open>The order of Get and ToLength in a log\<close>

text \<open>
  The abrupt completion an event recorded, if any.  \<open>length_got\<close> is the value a Get
  of \<^verbatim>\<open>"length"\<close> returned normally; \<open>coerces v e\<close> says that \<open>e\<close> is the call of
  ToLength on \<open>v\<close>.
\<close>

fun abrupt_of :: "'a completion \<Rightarrow> abrupt option" where
  "abrupt_of (NormalCompletion x) = None"
| "abrupt_of (AbruptCompletion c) = Some c"

fun event_abrupt :: "event \<Rightarrow> abrupt option" where
  "event_abrupt (ToObject_called v r) = abrupt_of r"
| "event_abrupt (Get_called Ob P r) = abrupt_of r"
| "event_abrupt (Set_called Ob P V T r) = abrupt_of r"
| "event_abrupt (HasProperty_called Ob P r) = abrupt_of r"
| "event_abrupt (DeletePropertyOrThrow_called Ob P r) = abrupt_of r"
| "event_abrupt (CreateDataPropertyOrThrow_called Ob P V r) = abrupt_of r"
| "event_abrupt (ToLength_called v r) = abrupt_of r"
| "event_abrupt (ToInteger_called v r) = abrupt_of r"
| "event_abrupt (IsArray_called v r) = abrupt_of r"
| "event_abrupt (IsConcatSpreadable_called v r) = abrupt_of r"
| "event_abrupt (ArraySpeciesCreate_called Ob len r) = abrupt_of r"
| "event_abrupt (Call_called F V as r) = abrupt_of r"
| "event_abrupt (ArrayProto_sortBody_called obj len cmp r) = abrupt_of r"

fun length_got :: "event \<Rightarrow> Value option" where
  "length_got (Get_called Ob P (NormalCompletion v)) = (if P = length_key then Some v else None)"
| "length_got _ = None"

fun coerces :: "Value \<Rightarrow> event \<Rightarrow> bool" where
  "coerces v (ToLength_called v' r) = (v' = v)"
| "coerces v _ = False"

fun is_ToLength_called :: "event \<Rightarrow> bool" where
  "is_ToLength_called (ToLength_called v r) = True"
| "is_ToLength_called _ = False"

text \<open>
  \<open>get_then_ToLength None evs\<close>: in the events \<open>evs\<close>, every call of ToLength comes
  directly after a Get of \<^verbatim>\<open>"length"\<close> that returned normally, and is applied to the
  value that Get returned; and every such Get is directly followed by the ToLength of
  its value.  The first argument is the value of a Get that still waits for its
  ToLength.
\<close>

fun get_then_ToLength :: "Value option \<Rightarrow> event list \<Rightarrow> bool" where
  "get_then_ToLength None [] = True"
| "get_then_ToLength (Some v) [] = False"
| "get_then_ToLength None (e # es) = (\<not> is_ToLength_called e \<and> get_then_ToLength (length_got e) es)"
| "get_then_ToLength (Some v) (e # es) = (coerces v e \<and> get_then_ToLength None es)"

text \<open>
  \<open>stops_at_abrupt r evs\<close>: only the last event may have returned an abrupt
  completion, and when it has, that completion is the result \<open>r\<close>.
\<close>

definition stops_at_abrupt :: "'a completion \<Rightarrow> event list \<Rightarrow> bool" where
  "stops_at_abrupt r evs =
     (list_all (\<lambda>e. event_abrupt e = None) (butlast evs) \<and>
      (evs = [] \<or> event_abrupt (last evs) = None \<or> event_abrupt (last evs) = abrupt_of r))"

text \<open>
  \<open>obeys returns m\<close>: from every state and log, the computation \<open>m\<close> only appends
  events to the log, and the appended events satisfy the two predicates above.  With
  \<open>returns\<close>, the computation also returns (it is not \<open>None\<close>).
\<close>

definition obeys :: "bool \<Rightarrow> ('s, 'a) exec \<Rightarrow> bool" where
  "obeys returns m =
     (\<forall>s tr. case m (s, tr) of
        None \<Rightarrow> \<not> returns
      | Some (r, s', tr') \<Rightarrow>
          take (length tr) tr' = tr \<and>
          get_then_ToLength None (drop (length tr) tr') \<and>
          stops_at_abrupt r (drop (length tr) tr'))"

definition is_digit :: "char \<Rightarrow> bool" where
  "is_digit c = (c \<in> set ''0123456789'')"


subsection \<open>The nesting of arrays on the heap\<close>

text \<open>
  \<open>depth_within fuel depth\<close>: counting down with \<^verbatim>\<open>depth - 1\<close>, the depth stops being
  positive in fewer than \<open>fuel\<close> steps.  No fuel is enough for Infinity, nor for a finite
  depth so large that \<^verbatim>\<open>depth - 1\<close> rounds back to \<^verbatim>\<open>depth\<close>.
\<close>

fun depth_within :: "nat \<Rightarrow> extint \<Rightarrow> bool" where
  "depth_within 0 depth = False"
| "depth_within (Suc n) depth = (\<not> ext_positive depth \<or> depth_within n (ext_pred depth))"

text \<open>
  A key made of decimal digits, as the keys \<^verbatim>\<open>ToString(sourceIndex)\<close> are, and whether a
  value is an array of the heap \<open>h\<close>, which is when FlattenIntoArray flattens it.
\<close>

definition index_key :: "Value \<Rightarrow> bool" where
  "index_key P = (case P of String str \<Rightarrow> list_all is_digit str | _ \<Rightarrow> False)"

definition is_array_in :: "object list \<Rightarrow> Value \<Rightarrow> bool" where
  "is_array_in h v = (case v of Object b \<Rightarrow> b < length h \<and> isArrayExotic (h ! b) | _ \<Rightarrow> False)"

text \<open>
  A finite, acyclic element structure.  \<open>R\<close> lists the objects reachable from the
  source and \<open>rk\<close> ranks them: every array that an object of \<open>R\<close> holds under a digit
  key is in \<open>R\<close> with a smaller rank, and the prototype of an object of \<open>R\<close>, whose
  elements a Get may return, is in \<open>R\<close> with a rank that is not larger.  A rank exists
  exactly when no array is reachable from itself through elements.
\<close>

definition well_nested :: "nat list \<Rightarrow> (nat \<Rightarrow> nat) \<Rightarrow> object list \<Rightarrow> nat \<Rightarrow> bool" where
  "well_nested R rk h a =
     (a < length h \<and>
      list_all (\<lambda>(P, d). case Value_of d of
                            Object b \<Rightarrow>
                              (if index_key P \<and> is_array_in h (Object b)
                               then b \<in> set R \<and> rk b < rk a else True)
                          | _ \<Rightarrow> True) (properties (h ! a)) \<and>
      (case Prototype (h ! a) of
         Object c \<Rightarrow> (if c < length h then c \<in> set R \<and> rk c \<le> rk a else True)
       | _ \<Rightarrow> True))"

definition nesting_ranked :: "nat list \<Rightarrow> (nat \<Rightarrow> nat) \<Rightarrow> object list \<Rightarrow> bool" where
  "nesting_ranked R rk h = list_all (well_nested R rk h) R"

text \<open>
  \<open>stores v ob ob'\<close>: what defining a property with value \<open>v\<close> may do to an object.  The
  prototype and the kind stay, and every property of \<open>ob'\<close> holds \<open>v\<close>, a Number (the
  \<^verbatim>\<open>length\<close> of an array) or the value of a property of \<open>ob\<close> with the same key.
\<close>

definition stores :: "Value \<Rightarrow> object \<Rightarrow> object \<Rightarrow> bool" where
  "stores v ob ob' =
     (Prototype ob' = Prototype ob \<and> isArrayExotic ob' = isArrayExotic ob \<and>
      (\<forall>e \<in> set (properties ob').
          Value_of (snd e) = v \<or> (\<exists>n. Value_of (snd e) = Number n) \<or>
          (\<exists>d'. (fst e, d') \<in> set (properties ob) \<and> Value_of d' = Value_of (snd e))))"

text \<open>The ranks of the second scenario's heap: \<^verbatim>\<open>[[1,2],[3,[4]]]\<close> above \<^verbatim>\<open>[3,[4]]\<close> above
  the arrays of numbers.\<close>

definition rank_nested :: "nat \<Rightarrow> nat" where
  "rank_nested a = (if a = 4 then 2 else if a = 3 then 1 else 0)"

subsection \<open>How a log begins\<close>




text \<open>\<open>log_begins returns shape m st\<close>: run from \<open>st\<close>, the computation \<open>m\<close> only
  appends events to the log, and its result and the appended events satisfy \<open>shape\<close>.
  With \<open>returns\<close>, the computation also returns.\<close>

definition log_begins ::
  "bool \<Rightarrow> ('a completion \<Rightarrow> event list \<Rightarrow> bool) \<Rightarrow> ('s, 'a) exec \<Rightarrow> 's \<times> event list \<Rightarrow> bool" where
  "log_begins returns shape m st =
     (case m st of
        None \<Rightarrow> \<not> returns
      | Some (r, s', tr') \<Rightarrow>
          take (length (snd st)) tr' = snd st \<and> shape r (drop (length (snd st)) tr'))"

section \<open>Static semantics: IsAnonymousFunctionDefinition\<close>

text \<open>
  \<^verbatim>\<open>src/static-semantics/IsAnonymousFunctionDefinition.mjs\<close>.  The two helpers
  \<^verbatim>\<open>IsFunctionDefinition_Expression\<close> and \<^verbatim>\<open>HasName_Expression\<close> live in
  \<^verbatim>\<open>static-semantics/all.mjs\<close>; they are parameters here, and so is the type of
  expression nodes.  To make "is invoked" a statement about the function, the model
  returns the list of helper calls it made, in order, next to its result.
\<close>

datatype 'e ss_call =
    Called_IsFunctionDefinition_Expression 'e
  | Called_HasName_Expression 'e

definition IsAnonymousFunctionDefinition ::
  "('e \<Rightarrow> bool) \<Rightarrow> ('e \<Rightarrow> bool) \<Rightarrow> 'e \<Rightarrow> bool \<times> 'e ss_call list" where
  "IsAnonymousFunctionDefinition IsFunctionDefinition_Expression HasName_Expression expr =
     (if IsFunctionDefinition_Expression expr = False
      then (False, [Called_IsFunctionDefinition_Expression expr])
      else
        (let hasName = HasName_Expression expr in
         if hasName = True
         then (False, [Called_IsFunctionDefinition_Expression expr, Called_HasName_Expression expr])
         else (True, [Called_IsFunctionDefinition_Expression expr, Called_HasName_Expression expr])))"

section \<open>Running computations\<close>

lemma Q_Normal: "m st = Some (NormalCompletion x, st') \<Longrightarrow> Q m f st = f x st'"
  by (simp add: Q_def)

lemma Q_Abrupt:
  "m st = Some (AbruptCompletion c, st') \<Longrightarrow> Q m f st = Some (AbruptCompletion c, st')"
  by (simp add: Q_def)

lemma Q_None: "m st = None \<Longrightarrow> Q m f st = None"
  by (simp add: Q_def)

lemma perform_run: "f s = (r, s') \<Longrightarrow> perform f ev (s, tr) = Some (r, s', tr @ [ev r])"
  by (simp add: perform_def)

lemma ret_run: "ret x st = Some (NormalCompletion x, st)"
  by (simp add: ret_def)

lemma Throw_run:
  "surroundingAgent_Throw ty m as st = Some (AbruptCompletion (ThrowCompletion ty m as), st)"
  by (simp add: surroundingAgent_Throw_def)

lemma IsCallable_run:
  "IsCallable ops v (s, tr) = Some (NormalCompletion (IsCallable_op ops v s), s, tr)"
  by (simp add: IsCallable_def)

lemmas op_defs = ToObject_def Get_def Set_def HasProperty_def DeletePropertyOrThrow_def
  CreateDataPropertyOrThrow_def ToLength_def ToInteger_def IsArray_def IsConcatSpreadable_def
  ArraySpeciesCreate_def Call_def ArrayProto_sortBody_def

section \<open>Rounding at the safe-integer bound\<close>

lemma quantum_small: "m < 2 ^ 53 \<Longrightarrow> quantum m = 1"
  by (subst quantum.simps) simp

lemma quantum_step: "2 ^ 53 \<le> m \<Longrightarrow> quantum m = 2 * quantum (m div 2)"
  by (subst quantum.simps) simp

lemma round_double_exact:
  assumes "\<bar>x\<bar> < 2 ^ 53"
  shows "round_double x = x"
proof -
  have q: "quantum \<bar>x\<bar> = 1" using assms by (rule quantum_small)
  have "round_double x = sgn x * \<bar>x\<bar>"
    unfolding round_double_def Let_def q by simp
  then show ?thesis by (simp add: mult_sgn_abs)
qed

lemma half_bounds:
  fixes m a b :: int
  shows "a \<le> m div 2 \<Longrightarrow> 2 * a \<le> m" and "m div 2 < b \<Longrightarrow> m < 2 * b"
  by presburger+

lemma quantum_bounds:
  "2 ^ 53 \<le> m \<Longrightarrow> 2 \<le> quantum m \<and> quantum m * 2 ^ 52 \<le> m \<and> m < quantum m * 2 ^ 53"
proof (induction m rule: quantum.induct)
  case (1 m)
  define K :: int where "K = 2 ^ 52"
  have K53: "(2::int) ^ 53 = 2 * K" by (simp add: K_def)
  have m: "2 * K \<le> m" using 1(2) unfolding K53 .
  have step: "quantum m = 2 * quantum (m div 2)" using 1(2) by (rule quantum_step)
  show ?case
  proof (cases "m div 2 < 2 ^ 53")
    case True
    then have "quantum (m div 2) = 1" by (rule quantum_small)
    then have q: "quantum m = 2" using step by simp
    from True have "m div 2 < 2 * K" unfolding K53 .
    then have "m < 2 * (2 * K)" by (rule half_bounds(2))
    with m show ?thesis unfolding q K53 K_def [symmetric] by simp
  next
    case False
    then have ge: "2 ^ 53 \<le> m div 2" by simp
    have "\<not> m < 2 ^ 53" using 1(2) by simp
    from 1(1) [OF this ge]
    have ih: "2 \<le> quantum (m div 2)" "quantum (m div 2) * K \<le> m div 2"
      "m div 2 < quantum (m div 2) * (2 * K)"
      unfolding K53 K_def [symmetric] by simp_all
    define q' where "q' = quantum (m div 2)"
    from ih have "2 \<le> 2 * q'" "2 * (q' * K) \<le> m" "m < 2 * (q' * (2 * K))"
      unfolding q'_def [symmetric] using half_bounds by auto
    then show ?thesis unfolding step q'_def [symmetric] K53 K_def [symmetric]
      by (simp add: mult.assoc)
  qed
qed


lemma round_double_ge:
  assumes "2 ^ 53 \<le> x"
  shows "2 ^ 53 \<le> round_double x"
proof -
  define K :: int where "K = 2 ^ 52"
  have K53: "(2::int) ^ 53 = 2 * K" by (simp add: K_def)
  have Kpos: "0 < K" by (simp add: K_def)
  define q where "q = quantum x"
  have qb: "2 \<le> q" "q * K \<le> x"
    using quantum_bounds [OF assms] unfolding q_def K_def by simp_all
  define lo where "lo = x - x mod q"
  have lo_eq: "lo = q * (x div q)" by (simp add: lo_def minus_mod_eq_mult_div)
  have "K \<le> x div q"
  proof -
    have "(q * K) div q \<le> x div q" using qb by (intro zdiv_mono1) simp_all
    then show ?thesis using qb by simp
  qed
  then have "q * K \<le> q * (x div q)" using qb by (intro mult_left_mono) simp_all
  moreover have "2 * K \<le> q * K" using qb Kpos by (intro mult_right_mono) simp_all
  ultimately have lo: "2 * K \<le> lo" unfolding lo_eq by linarith
  have x: "\<bar>x\<bar> = x" "sgn x = 1" using assms by (simp_all add: sgn_if)
  have "lo \<le> round_double x"
    using qb unfolding round_double_def Let_def x q_def [symmetric] lo_def [symmetric]
    by simp
  with lo show ?thesis unfolding K53 by linarith
qed

lemma js_add_past_safe: "MAX_SAFE < a + b \<Longrightarrow> MAX_SAFE < js_add a b"
  using round_double_ge [of "a + b"] by (simp add: js_add_def MAX_SAFE_def)

lemma js_add_exact: "\<bar>a + b\<bar> \<le> MAX_SAFE \<Longrightarrow> js_add a b = a + b"
  using round_double_exact [of "a + b"] by (simp add: js_add_def MAX_SAFE_def)

lemma js_sub_exact: "\<bar>a - b\<bar> \<le> MAX_SAFE \<Longrightarrow> js_sub a b = a - b"
  using round_double_exact [of "a - b"] by (simp add: js_sub_def MAX_SAFE_def)

section \<open>The scenarios\<close>

text \<open>
  Claim C1.  On the array \<^verbatim>\<open>[1,2,3]\<close>, push with the argument 4 returns 4 and leaves
  the own \<^verbatim>\<open>length\<close> equal to 4, with 4 stored under the key "3"; pop on the array
  afterwards returns 4, leaves \<^verbatim>\<open>length\<close> equal to 3 and the own property "3"
  deleted.
\<close>

theorem push_pop_scenario:
  "(case ArrayProto_push std_ops [num 4] (Object 1) (realm_123, []) of
      None \<Rightarrow> False
    | Some (pushed, s1, log1) \<Rightarrow>
        pushed = NormalCompletion (num 4) \<and>
        own_length s1 1 = Some (num 4) \<and>
        map_option Value_of (own_property s1 1 (String ''3'')) = Some (num 4) \<and>
        (case ArrayProto_pop std_ops [] (Object 1) (s1, log1) of
           None \<Rightarrow> False
         | Some (popped, s2, log2) \<Rightarrow>
             popped = NormalCompletion (num 4) \<and>
             own_length s2 1 = Some (num 3) \<and>
             own_property s2 1 (String ''3'') = None \<and>
             index_properties s2 1 =
               [(String ''0'', num 1), (String ''1'', num 2), (String ''2'', num 3)]))"
  by code_simp

text \<open>
  Claim C2.  On \<^verbatim>\<open>[[1,2],[3,[4]]]\<close> (object 4), flat without an argument returns a
  new array (object 5) with the elements 1, 2, 3 and the array \<^verbatim>\<open>[4]\<close> (object 2), in
  that order; flat with the argument Infinity returns a new array with the elements
  1, 2, 3, 4.  In both cases the five objects of the heap before the call are
  unchanged and the new array is the only new object.
\<close>

theorem flat_scenario:
  "(case ArrayProto_flat 3 std_ops [] (Object 4) (realm_nested, []) of
      None \<Rightarrow> False
    | Some (r, s, log) \<Rightarrow>
        r = NormalCompletion (Object 5) \<and>
        length (heap s) = 6 \<and> take 5 (heap s) = heap realm_nested \<and>
        isArrayExotic (heap s ! 5) \<and>
        own_length s 5 = Some (num 4) \<and>
        index_properties s 5 =
          [(String ''0'', num 1), (String ''1'', num 2), (String ''2'', num 3),
           (String ''3'', Object 2)]) \<and>
   (case ArrayProto_flat 3 std_ops [Number PosInfinity] (Object 4) (realm_nested, []) of
      None \<Rightarrow> False
    | Some (r, s, log) \<Rightarrow>
        r = NormalCompletion (Object 5) \<and>
        length (heap s) = 6 \<and> take 5 (heap s) = heap realm_nested \<and>
        isArrayExotic (heap s ! 5) \<and>
        own_length s 5 = Some (num 4) \<and>
        index_properties s 5 =
          [(String ''0'', num 1), (String ''1'', num 2), (String ''2'', num 3),
           (String ''3'', num 4)])"
  by code_simp

section \<open>General properties of the methods\<close>

lemma pop_empty_w1: "ToObject_op std_ops (Object 0) realm_123 = (NormalCompletion (Object 0), realm_123)" by code_simp
lemma pop_empty_w2: "Get_op std_ops (Object 0) length_key realm_123 = (NormalCompletion (num 0), realm_123)" by code_simp
lemma pop_empty_w3: "ToLength_op std_ops (num 0) realm_123 = (NormalCompletion 0, realm_123)" by code_simp
lemma pop_empty_w4: "Set_op std_ops (Object 0) length_key (Number (Finite 0)) (Boolean True) realm_123 = (NormalCompletion (Boolean True), realm_123)" by code_simp

text \<open>
  Claim C9.  When ToObject, Get of \<^verbatim>\<open>length\<close> and ToLength complete normally and the
  length is 0, pop and shift call \<^verbatim>\<open>Set(O, "length", 0, true)\<close> as their fourth and last
  operation; they return undefined when the Set completes normally and the Set's
  abrupt completion otherwise, in the state the Set left.
\<close>

theorem pop_shift_empty:
  assumes "ToObject_op ops thisValue s = (NormalCompletion Ob, s1)"
      and "Get_op ops Ob length_key s1 = (NormalCompletion lenProp, s2)"
      and "ToLength_op ops lenProp s2 = (NormalCompletion 0, s3)"
      and "Set_op ops Ob length_key (Number (Finite 0)) (Boolean True) s3 = (r, s4)"
  shows "ArrayProto_pop ops args thisValue (s, tr) =
           Some (case r of NormalCompletion v \<Rightarrow> NormalCompletion Undefined
                         | AbruptCompletion c \<Rightarrow> AbruptCompletion c,
                 s4,
                 tr @ [ToObject_called thisValue (NormalCompletion Ob),
                       Get_called Ob length_key (NormalCompletion lenProp),
                       ToLength_called lenProp (NormalCompletion 0),
                       Set_called Ob length_key (Number (Finite 0)) (Boolean True) r])
       \<and> ArrayProto_shift ops args thisValue (s, tr) =
           Some (case r of NormalCompletion v \<Rightarrow> NormalCompletion Undefined
                         | AbruptCompletion c \<Rightarrow> AbruptCompletion c,
                 s4,
                 tr @ [ToObject_called thisValue (NormalCompletion Ob),
                       Get_called Ob length_key (NormalCompletion lenProp),
                       ToLength_called lenProp (NormalCompletion 0),
                       Set_called Ob length_key (Number (Finite 0)) (Boolean True) r])"
proof -
  have 1: "ToObject ops thisValue (s, tr) =
             Some (NormalCompletion Ob, s1, tr @ [ToObject_called thisValue (NormalCompletion Ob)])"
    using assms(1) by (simp add: ToObject_def perform_run)
  have 2: "Get ops Ob length_key (s1, tr1) =
             Some (NormalCompletion lenProp, s2, tr1 @ [Get_called Ob length_key (NormalCompletion lenProp)])" for tr1
    using assms(2) by (simp add: Get_def perform_run)
  have 3: "ToLength ops lenProp (s2, tr2) =
             Some (NormalCompletion 0, s3, tr2 @ [ToLength_called lenProp (NormalCompletion 0)])" for tr2
    using assms(3) by (simp add: ToLength_def perform_run)
  have 4: "Set ops Ob length_key (Number (Finite 0)) (Boolean True) (s3, tr3) =
             Some (r, s4, tr3 @ [Set_called Ob length_key (Number (Finite 0)) (Boolean True) r])" for tr3
    using assms(4) by (simp add: Set_def perform_run)
  show ?thesis
    by (cases r) (simp_all add: ArrayProto_pop_def ArrayProto_shift_def Q_Normal Q_Abrupt 1 2 3 4 ret_run)
qed

theorem pop_shift_empty_witness:
  "ArrayProto_pop std_ops [] (Object 0) (realm_123, []) =
     Some (NormalCompletion Undefined, realm_123,
           [ToObject_called (Object 0) (NormalCompletion (Object 0)),
            Get_called (Object 0) length_key (NormalCompletion (num 0)),
            ToLength_called (num 0) (NormalCompletion 0),
            Set_called (Object 0) length_key (Number (Finite 0)) (Boolean True) (NormalCompletion (Boolean True))])
   \<and> ArrayProto_shift std_ops [] (Object 0) (realm_123, []) =
     Some (NormalCompletion Undefined, realm_123,
           [ToObject_called (Object 0) (NormalCompletion (Object 0)),
            Get_called (Object 0) length_key (NormalCompletion (num 0)),
            ToLength_called (num 0) (NormalCompletion 0),
            Set_called (Object 0) length_key (Number (Finite 0)) (Boolean True) (NormalCompletion (Boolean True))])"
  using pop_shift_empty [OF pop_empty_w1 pop_empty_w2 pop_empty_w3 pop_empty_w4, of "[]" "[]"] by simp

lemma Q_IsCallable:
  "Q (IsCallable ops v) f (s, tr) = f (IsCallable_op ops v s) (s, tr)"
  by (simp add: Q_def IsCallable_def)

text \<open>
  Claim C4.  Let the callback argument be a value that IsCallable rejects in every
  state.  If ToObject, Get of \<^verbatim>\<open>length\<close> and ToLength complete normally, then filter, map
  and flatMap return a throw completion with a TypeError after exactly these three
  operations.  sort, when the argument is not undefined, returns the TypeError before
  any operation (the state and the log are untouched).  And in every case filter, map
  and flatMap return an abrupt completion and their log has no call of \<^verbatim>\<open>Call\<close>.
\<close>

theorem non_callable_callback:
  assumes nc: "\<And>s. IsCallable_op ops (arg args 0) s = Boolean False"
  shows "(ToObject_op ops thisValue s = (NormalCompletion Ob, s1) \<longrightarrow>
          Get_op ops Ob length_key s1 = (NormalCompletion lenProp, s2) \<longrightarrow>
          ToLength_op ops lenProp s2 = (NormalCompletion len, s3) \<longrightarrow>
            ArrayProto_filter ops args thisValue (s, tr) =
              Some (AbruptCompletion (ThrowCompletion ''TypeError'' (Some ''NotAFunction'') [arg args 0]),
                    s3, tr @ [ToObject_called thisValue (NormalCompletion Ob),
                              Get_called Ob length_key (NormalCompletion lenProp),
                              ToLength_called lenProp (NormalCompletion len)])
          \<and> ArrayProto_map ops args thisValue (s, tr) =
              Some (AbruptCompletion
                      (ThrowCompletion ''TypeError'' (Some ''callbackfn is not callable'') []),
                    s3, tr @ [ToObject_called thisValue (NormalCompletion Ob),
                              Get_called Ob length_key (NormalCompletion lenProp),
                              ToLength_called lenProp (NormalCompletion len)])
          \<and> ArrayProto_flatMap fuel ops args thisValue (s, tr) =
              Some (AbruptCompletion (ThrowCompletion ''TypeError'' None []),
                    s3, tr @ [ToObject_called thisValue (NormalCompletion Ob),
                              Get_called Ob length_key (NormalCompletion lenProp),
                              ToLength_called lenProp (NormalCompletion len)]))
       \<and> (arg args 0 \<noteq> Undefined \<longrightarrow>
            ArrayProto_sort ops args thisValue (s, tr) =
              Some (AbruptCompletion
                      (ThrowCompletion ''TypeError'' (Some ''NotAFunction'') [arg args 0]), s, tr))
       \<and> (\<forall>m \<in> {ArrayProto_filter ops, ArrayProto_map ops, ArrayProto_flatMap fuel ops}.
            case m args thisValue (s, tr) of
              None \<Rightarrow> False
            | Some (r, s', tr') \<Rightarrow>
                (\<exists>c. r = AbruptCompletion c) \<and> take (length tr) tr' = tr \<and>
                list_all (\<lambda>e. \<not> is_Call_called e) (drop (length tr) tr'))"
proof (intro conjI impI ballI)
  assume "ToObject_op ops thisValue s = (NormalCompletion Ob, s1)"
     "Get_op ops Ob length_key s1 = (NormalCompletion lenProp, s2)"
     "ToLength_op ops lenProp s2 = (NormalCompletion len, s3)"
  then show "ArrayProto_filter ops args thisValue (s, tr) =
              Some (AbruptCompletion (ThrowCompletion ''TypeError'' (Some ''NotAFunction'') [arg args 0]),
                    s3, tr @ [ToObject_called thisValue (NormalCompletion Ob),
                              Get_called Ob length_key (NormalCompletion lenProp),
                              ToLength_called lenProp (NormalCompletion len)])"
     "ArrayProto_map ops args thisValue (s, tr) =
              Some (AbruptCompletion
                      (ThrowCompletion ''TypeError'' (Some ''callbackfn is not callable'') []),
                    s3, tr @ [ToObject_called thisValue (NormalCompletion Ob),
                              Get_called Ob length_key (NormalCompletion lenProp),
                              ToLength_called lenProp (NormalCompletion len)])"
     "ArrayProto_flatMap fuel ops args thisValue (s, tr) =
              Some (AbruptCompletion (ThrowCompletion ''TypeError'' None []),
                    s3, tr @ [ToObject_called thisValue (NormalCompletion Ob),
                              Get_called Ob length_key (NormalCompletion lenProp),
                              ToLength_called lenProp (NormalCompletion len)])"
    by (simp_all add: ArrayProto_filter_def ArrayProto_map_def ArrayProto_flatMap_def
          ToObject_def Get_def ToLength_def perform_run Q_Normal Q_IsCallable nc Throw_run)
next
  assume "arg args 0 \<noteq> Undefined"
  then show "ArrayProto_sort ops args thisValue (s, tr) =
              Some (AbruptCompletion
                      (ThrowCompletion ''TypeError'' (Some ''NotAFunction'') [arg args 0]), s, tr)"
    by (simp add: ArrayProto_sort_def Q_IsCallable nc Throw_run)
next
  fix m assume "m \<in> {ArrayProto_filter ops, ArrayProto_map ops, ArrayProto_flatMap fuel ops}"
  then consider "m = ArrayProto_filter ops" | "m = ArrayProto_map ops" | "m = ArrayProto_flatMap fuel ops"
    by blast
  then show "case m args thisValue (s, tr) of
              None \<Rightarrow> False
            | Some (r, s', tr') \<Rightarrow>
                (\<exists>c. r = AbruptCompletion c) \<and> take (length tr) tr' = tr \<and>
                list_all (\<lambda>e. \<not> is_Call_called e) (drop (length tr) tr')"
  proof cases
    case 1
    then show ?thesis
      by (simp add: ArrayProto_filter_def ToObject_def Get_def ToLength_def perform_def Q_def
            IsCallable_def nc surroundingAgent_Throw_def
            split: option.splits prod.splits completion.splits)
  next
    case 2
    then show ?thesis
      by (simp add: ArrayProto_map_def ToObject_def Get_def ToLength_def perform_def Q_def
            IsCallable_def nc surroundingAgent_Throw_def
            split: option.splits prod.splits completion.splits)
  next
    case 3
    then show ?thesis
      by (simp add: ArrayProto_flatMap_def ToObject_def Get_def ToLength_def perform_def Q_def
            IsCallable_def nc surroundingAgent_Throw_def
            split: option.splits prod.splits completion.splits)
  qed
qed

lemma IsCallable_std_ops: "IsCallable_op std_ops (arg [num 1] 0) s = Boolean False"
  by (simp add: std_ops_def host_ops_def)

theorem non_callable_callback_witness:
  "ArrayProto_filter std_ops [num 1] (Object 1) (realm_123, []) =
     Some (AbruptCompletion (ThrowCompletion ''TypeError'' (Some ''NotAFunction'') [num 1]),
           realm_123,
           [ToObject_called (Object 1) (NormalCompletion (Object 1)),
            Get_called (Object 1) length_key (NormalCompletion (num 3)),
            ToLength_called (num 3) (NormalCompletion 3)])
   \<and> ArrayProto_sort std_ops [num 1] (Object 1) (realm_123, []) =
     Some (AbruptCompletion (ThrowCompletion ''TypeError'' (Some ''NotAFunction'') [num 1]),
           realm_123, [])"
proof -
  have 1: "ToObject_op std_ops (Object 1) realm_123 = (NormalCompletion (Object 1), realm_123)"
    by code_simp
  have 2: "Get_op std_ops (Object 1) length_key realm_123 = (NormalCompletion (num 3), realm_123)"
    by code_simp
  have 3: "ToLength_op std_ops (num 3) realm_123 = (NormalCompletion 3, realm_123)"
    by code_simp
  have 4: "arg [num 1] 0 = num 1" "num 1 \<noteq> Undefined"
    by (simp_all add: arg_def num_def)
  show ?thesis
    using non_callable_callback [of std_ops "[num 1]" "Object 1" realm_123 "Object 1" realm_123
        "num 3" realm_123 3 realm_123 "[]" 0, OF IsCallable_std_ops] 1 2 3 4
    by simp
qed

section \<open>The guards against arrays past the safe length\<close>

text \<open>
  push, unshift and concat throw the TypeError whenever the exact count passes
  \<open>2^53 - 1\<close>: a sum of at least \<open>2^53\<close> rounds to at least \<open>2^53\<close>.
\<close>

lemma push_past_safe_length:
  assumes "ToObject_op ops thisValue s = (NormalCompletion Ob, s1)"
      and "Get_op ops Ob length_key s1 = (NormalCompletion lenProp, s2)"
      and "ToLength_op ops lenProp s2 = (NormalCompletion len, s3)"
      and "MAX_SAFE < len + int (length items)"
  shows "ArrayProto_push ops items thisValue (s, tr) =
           Some (AbruptCompletion (ThrowCompletion ''TypeError'' (Some ''ArrayPastSafeLength'') []),
                 s3, tr @ [ToObject_called thisValue (NormalCompletion Ob),
                           Get_called Ob length_key (NormalCompletion lenProp),
                           ToLength_called lenProp (NormalCompletion len)])"
  using assms js_add_past_safe [of len "int (length items)"]
  by (simp add: ArrayProto_push_def ToObject_def Get_def ToLength_def perform_run Q_Normal
        Throw_run Let_def)

lemma unshift_past_safe_length:
  assumes "ToObject_op ops thisValue s = (NormalCompletion Ob, s1)"
      and "Get_op ops Ob length_key s1 = (NormalCompletion lenProp, s2)"
      and "ToLength_op ops lenProp s2 = (NormalCompletion len, s3)"
      and "args \<noteq> []"
      and "MAX_SAFE < len + int (length args)"
  shows "ArrayProto_unshift ops args thisValue (s, tr) =
           Some (AbruptCompletion (ThrowCompletion ''TypeError'' (Some ''ArrayPastSafeLength'') []),
                 s3, tr @ [ToObject_called thisValue (NormalCompletion Ob),
                           Get_called Ob length_key (NormalCompletion lenProp),
                           ToLength_called lenProp (NormalCompletion len)])"
  using assms js_add_past_safe [of len "int (length args)"]
  by (simp add: ArrayProto_unshift_def ToObject_def Get_def ToLength_def perform_run Q_Normal
        Q_Abrupt Throw_run Let_def)

lemma concat_spreadable_past_safe_length:
  assumes "IsConcatSpreadable_op ops E s = (NormalCompletion (Boolean True), s1)"
      and "Get_op ops E length_key s1 = (NormalCompletion lenProp, s2)"
      and "ToLength_op ops lenProp s2 = (NormalCompletion len, s3)"
      and "MAX_SAFE < n + len"
  shows "concat_items ops A n (E # items) (s, tr) =
           Some (AbruptCompletion (ThrowCompletion ''TypeError'' (Some ''ArrayPastSafeLength'') []),
                 s3, tr @ [IsConcatSpreadable_called E (NormalCompletion (Boolean True)),
                           Get_called E length_key (NormalCompletion lenProp),
                           ToLength_called lenProp (NormalCompletion len)])"
  using assms js_add_past_safe [of n len]
  by (simp add: IsConcatSpreadable_def Get_def ToLength_def perform_run Q_Normal Throw_run)

lemma concat_element_past_safe_length:
  assumes "IsConcatSpreadable_op ops E s = (NormalCompletion spreadable, s1)"
      and "spreadable \<noteq> Boolean True"
      and "MAX_SAFE \<le> n"
  shows "concat_items ops A n (E # items) (s, tr) =
           Some (AbruptCompletion (ThrowCompletion ''TypeError'' (Some ''ArrayPastSafeLength'') []),
                 s1, tr @ [IsConcatSpreadable_called E (NormalCompletion spreadable)])"
  using assms
  by (simp add: IsConcatSpreadable_def perform_run Q_Normal Throw_run)

text \<open>
  Claim C3, for splice.  The guard of splice computes
  \<^verbatim>\<open>len + insertCount - actualDeleteCount\<close> in two rounded steps.  On a receiver with
  \<^verbatim>\<open>length\<close> equal to \<open>2^53 - 1\<close>, \<^verbatim>\<open>splice(2^53 - 2, 1, "a", "b")\<close> has
  \<open>len + insertCount = 2^53 + 1\<close>, which rounds to \<open>2^53\<close>, and the difference
  \<open>2^53 - 1\<close> passes the guard although the exact count is \<open>2^53\<close>: splice returns
  normally, having stored the second item under the key \<open>2^53 - 1\<close> and set
  \<^verbatim>\<open>length\<close> to \<open>2^53\<close>.
\<close>

theorem splice_misses_safe_length:
  "(case ArrayProto_splice std_ops [num (MAX_SAFE - 1), num 1, String ''a'', String ''b'']
           (Object 0) (realm_max_length, []) of
      Some (NormalCompletion A, s, log) \<Rightarrow>
        own_length s 0 = Some (num (MAX_SAFE + 1)) \<and>
        map_option Value_of (own_property s 0 (NumberToString MAX_SAFE)) = Some (String ''b'') \<and>
        MAX_SAFE < MAX_SAFE + 2 - 1
    | _ \<Rightarrow> False)"
  by code_simp

section \<open>The end of the command line\<close>

lemma report_result_cases:
  "report_result eng result =
     (case result of
        NormalCompletion v \<Rightarrow> Exit 0 []
      | AbruptCompletion c \<Rightarrow>
          if Type (cvalue c) \<noteq> ''Object'' then Exit 1 (inspect eng result @ [CHR 0x0A])
          else (case Call_errorToString eng (cvalue c) of
                  NormalCompletion (String str) \<Rightarrow> Exit 1 (str @ [CHR 0x0A])
                | _ \<Rightarrow> UncaughtHostException))"
  by (simp add: report_result_def split: completion.splits)

lemma run_input_file_reported:
  "run_input_file eng module_flag lastArg resolved source =
     (case evaluate_input eng module_flag lastArg resolved source of
        NormalCompletion v \<Rightarrow> Exit 0 []
      | AbruptCompletion c \<Rightarrow>
          if Type (cvalue c) \<noteq> ''Object'' then
            Exit 1 (inspect eng (AbruptCompletion c) @ [CHR 0x0A])
          else (case Call_errorToString eng (cvalue c) of
                  NormalCompletion (String str) \<Rightarrow> Exit 1 (str @ [CHR 0x0A])
                | _ \<Rightarrow> UncaughtHostException))"
  by (simp add: run_input_file_def report_result_def split: completion.splits)

text \<open>
  Claim C6, where the carried value is an Object on which
  \<^verbatim>\<open>Error.prototype.toString\<close> completes abruptly: the script calls
  \<^verbatim>\<open>.stringValue()\<close> on the abrupt completion, which is a host TypeError, and neither
  writes to stderr nor reaches \<^verbatim>\<open>process.exit(1)\<close>.
\<close>

theorem uncaught_object_not_reported:
  "evaluate_input engine_name_symbol False ''t.js'' ''/t.js'' ''throw { name: Symbol() };'' =
     AbruptCompletion (Abrupt Throw (Object 0) None)
   \<and> run_input_file engine_name_symbol False ''t.js'' ''/t.js'' ''throw { name: Symbol() };'' =
     UncaughtHostException"
  by (simp add: run_input_file_def evaluate_input_def report_result_def engine_name_symbol_def
        endsWith_def)

section \<open>The resolver hook\<close>

lemma resolveImportedModule_entry:
  assumes "moduleEntry realm = Some entry"
    and "path_resolve env (path_dirname env (specifier m)) spec = specifier entry"
  shows "resolveImportedModule (Suc fuel) env realm m spec =
           Some (Returned (NormalCompletion entry), realm)"
  using assms by (simp add: Let_def)

lemma resolveImportedModule_cached:
  assumes "moduleEntry realm = None \<or>
           path_resolve env (path_dirname env (specifier m)) spec \<noteq> specifier (the (moduleEntry realm))"
    and "map_of (moduleCache realm) (path_resolve env (path_dirname env (specifier m)) spec) = Some c"
  shows "resolveImportedModule (Suc fuel) env realm m spec = Some (Returned c, realm)"
  using assms by (auto simp add: Let_def)

lemma resolveImportedModule_missing:
  assumes "moduleEntry realm = None \<or>
           path_resolve env (path_dirname env (specifier m)) spec \<noteq> specifier (the (moduleEntry realm))"
    and "map_of (moduleCache realm) (path_resolve env (path_dirname env (specifier m)) spec) = None"
    and "\<not> fs_existsSync env (path_resolve env (path_dirname env (specifier m)) spec)"
  shows "resolveImportedModule (Suc fuel) env realm m spec =
           Some (Returned (AbruptCompletion
                   (ThrowCompletion ''Error'' (Some (''Cannot resolve module '' @ spec)) [])), realm)"
  using assms by (auto simp add: Let_def)

lemma resolve_requests_entry:
  assumes "\<And>realm m spec res realm'. hook realm m spec = Some (res, realm') \<Longrightarrow>
             moduleEntry realm' = moduleEntry realm"
  shows "resolve_requests hook realm m specs = Some (res, realm') \<Longrightarrow>
         moduleEntry realm' = moduleEntry realm"
proof (induction specs arbitrary: realm)
  case Nil
  then show ?case by simp
next
  case (Cons spec specs)
  show ?case
  proof (cases "hook realm m spec")
    case None
    with Cons.prems show ?thesis by simp
  next
    case (Some p)
    obtain r realm1 where p: "p = (r, realm1)" by (cases p)
    have e1: "moduleEntry realm1 = moduleEntry realm" using assms Some p by blast
    show ?thesis
    proof (cases r)
      case HostException
      with Cons.prems Some p e1 show ?thesis by simp
    next
      case (Returned c)
      show ?thesis
      proof (cases c)
        case (AbruptCompletion a)
        with Cons.prems Some p e1 Returned show ?thesis by simp
      next
        case (NormalCompletion imported)
        with Cons.prems Some p Returned have "resolve_requests hook realm1 m specs = Some (res, realm')"
          by simp
        from Cons.IH [OF this] e1 show ?thesis by simp
      qed
    qed
  qed
qed

lemma createSourceTextModule_entry:
  assumes "\<And>realm m spec res realm'. hook realm m spec = Some (res, realm') \<Longrightarrow>
             moduleEntry realm' = moduleEntry realm"
    and "createSourceTextModule env hook realm p source = Some (res, realm')"
  shows "moduleEntry realm' = moduleEntry realm"
proof (cases "module_syntax_error env p source")
  case (Some c)
  with assms(2) show ?thesis by (simp add: createSourceTextModule_def)
next
  case None
  let ?m = "\<lparr>module_id = modules_created realm, specifier = p, sourceText = source\<rparr>"
  let ?realm = "realm\<lparr>modules_created := Suc (modules_created realm)\<rparr>"
  from assms(2) None obtain r where
    "resolve_requests hook ?realm ?m (requestedModules env source) = Some (r, realm')"
    by (auto simp add: createSourceTextModule_def Let_def
        split: option.splits prod.splits host_result.splits completion.splits)
  from resolve_requests_entry [OF assms(1) this] show ?thesis by simp
qed

lemma resolveImportedModule_keeps_entry:
  "resolveImportedModule fuel env realm m spec = Some (res, realm') \<Longrightarrow>
   moduleEntry realm' = moduleEntry realm"
proof (induction fuel arbitrary: realm m spec res realm')
  case 0
  then show ?case by simp
next
  case (Suc fuel)
  let ?p = "path_resolve env (path_dirname env (specifier m)) spec"
  show ?case
  proof (cases "realm' = realm")
    case True
    then show ?thesis by simp
  next
    case False
    with Suc.prems obtain source r1 realm1 where
      cr: "createSourceTextModule env (resolveImportedModule fuel env) realm ?p source = Some (r1, realm1)"
      and r: "realm' = realm1 \<or> realm' = realm1\<lparr>moduleCache := AList.update ?p (case r1 of Returned c \<Rightarrow> c) (moduleCache realm1)\<rparr>"
      by (auto simp add: Let_def
          split: option.splits prod.splits host_result.splits if_splits)
    have "moduleEntry realm1 = moduleEntry realm"
      by (rule createSourceTextModule_entry [OF _ cr]) (rule Suc.IH)
    with r show ?thesis by auto
  qed
qed

lemma resolveImportedModule_caches:
  assumes "resolveImportedModule fuel env realm m spec = Some (Returned c, realm')"
    and "moduleEntry realm = None \<or>
         path_resolve env (path_dirname env (specifier m)) spec \<noteq> specifier (the (moduleEntry realm))"
    and "fs_existsSync env (path_resolve env (path_dirname env (specifier m)) spec)"
  shows "map_of (moduleCache realm') (path_resolve env (path_dirname env (specifier m)) spec) = Some c"
proof (cases fuel)
  case 0
  with assms(1) show ?thesis by simp
next
  case (Suc n)
  with assms show ?thesis
    by (auto simp add: Let_def update_conv'
        split: option.splits prod.splits host_result.splits if_splits)
qed

lemma resolveImportedModule_again:
  assumes "resolveImportedModule fuel env realm m spec = Some (Returned c, realm')"
  shows "resolveImportedModule (Suc k) env realm' m spec = Some (Returned c, realm')"
proof -
  let ?p = "path_resolve env (path_dirname env (specifier m)) spec"
  obtain n where fuel: "fuel = Suc n" using assms by (cases fuel) simp_all
  have entry: "moduleEntry realm' = moduleEntry realm"
    using assms by (rule resolveImportedModule_keeps_entry)
  show ?thesis
  proof (cases "moduleEntry realm \<noteq> None \<and> ?p = specifier (the (moduleEntry realm))")
    case True
    with assms fuel have "c = NormalCompletion (the (moduleEntry realm))" "realm' = realm"
      by (auto simp add: Let_def)
    with True show ?thesis by (simp add: Let_def)
  next
    case noentry: False
    show ?thesis
    proof (cases "fs_existsSync env ?p \<or> map_of (moduleCache realm) ?p \<noteq> None")
      case True
      have "map_of (moduleCache realm') ?p = Some c"
      proof (cases "map_of (moduleCache realm) ?p")
        case None
        with True have "fs_existsSync env ?p" by simp
        with assms noentry show ?thesis by (intro resolveImportedModule_caches) auto
      next
        case (Some c')
        with assms fuel noentry show ?thesis by (auto simp add: Let_def)
      qed
      with noentry entry show ?thesis by (auto simp add: Let_def)
    next
      case False
      with assms fuel noentry have "realm' = realm"
        "c = AbruptCompletion (ThrowCompletion ''Error'' (Some (''Cannot resolve module '' @ spec)) [])"
        by (auto simp add: Let_def)
      with False noentry show ?thesis by (auto simp add: Let_def)
    qed
  qed
qed


subsection \<open>An import without a cycle\<close>

lemma acyclic_import_scenario:
  "load_entry 1 node_example createRealm ''/app/a.mjs'' ''import b'' =
     Some (Returned (NormalCompletion module_a),
           \<lparr>moduleEntry = Some module_a,
            moduleCache = [(''/app/b.mjs'', NormalCompletion
               \<lparr>module_id = 1, specifier = ''/app/b.mjs'', sourceText = ''export {}''\<rparr>)],
            modules_created = 2\<rparr>)"
  by code_simp

subsection \<open>An import cycle\<close>




section \<open>Get, then ToLength\<close>

lemma obeys_NoneD: "obeys b m \<Longrightarrow> m (s, tr) = None \<Longrightarrow> \<not> b"
  unfolding obeys_def by (erule allE [of _ s], erule allE [of _ tr]) simp

lemma obeys_SomeD:
  "obeys b m \<Longrightarrow> m (s, tr) = Some (r, s', tr') \<Longrightarrow>
   take (length tr) tr' = tr \<and> get_then_ToLength None (drop (length tr) tr') \<and>
   stops_at_abrupt r (drop (length tr) tr')"
  unfolding obeys_def by (erule allE [of _ s], erule allE [of _ tr]) simp

lemma get_then_ToLength_append:
  "get_then_ToLength p a \<Longrightarrow> get_then_ToLength None b \<Longrightarrow> get_then_ToLength p (a @ b)"
  by (induction p a rule: get_then_ToLength.induct) auto

lemma obeys_ret: "obeys b (ret x)"
  by (simp add: obeys_def ret_def stops_at_abrupt_def)

lemma obeys_Throw: "obeys b (surroundingAgent_Throw ty m as)"
  by (simp add: obeys_def surroundingAgent_Throw_def stops_at_abrupt_def)

lemma obeys_IsCallable: "obeys b (IsCallable ops v)"
  by (simp add: obeys_def IsCallable_def stops_at_abrupt_def)


lemma obeys_weaken: "obeys True m \<Longrightarrow> obeys b m"
  unfolding obeys_def
  by (intro allI, erule_tac x = s in allE, erule_tac x = tr in allE) (auto split: option.splits)

lemma obeys_perform:
  assumes "\<And>r. \<not> is_ToLength_called (ev r)" "\<And>r. length_got (ev r) = None"
    "\<And>r. event_abrupt (ev r) = abrupt_of r"
  shows "obeys b (perform f ev)"
  using assms by (auto simp add: obeys_def perform_def stops_at_abrupt_def split: prod.splits)

lemma obeys_Q:
  assumes "obeys b m" "\<And>x. obeys b (f x)"
  shows "obeys b (Q m f)"
  unfolding obeys_def
proof (intro allI)
  fix s tr
  show "case Q m f (s, tr) of None \<Rightarrow> \<not> b
        | Some (r, s', tr') \<Rightarrow> take (length tr) tr' = tr \<and>
            get_then_ToLength None (drop (length tr) tr') \<and> stops_at_abrupt r (drop (length tr) tr')"
  proof (cases "m (s, tr)")
    case None
    then show ?thesis using obeys_NoneD [OF assms(1) None] by (simp add: Q_def)
  next
    case (Some res)
    obtain r s1 tr1 where res: "res = (r, s1, tr1)" by (cases res)
    from obeys_SomeD [OF assms(1)] Some res have m: "take (length tr) tr1 = tr"
      "get_then_ToLength None (drop (length tr) tr1)" "stops_at_abrupt r (drop (length tr) tr1)"
      by simp_all
    define evs where "evs = drop (length tr) tr1"
    have tr1: "tr1 = tr @ evs" using m(1) by (metis append_take_drop_id evs_def)
    show ?thesis
    proof (cases r)
      case (AbruptCompletion c)
      then show ?thesis using Some res m by (simp add: Q_def stops_at_abrupt_def)
    next
      case (NormalCompletion x)
      then have Qeq: "Q m f (s, tr) = f x (s1, tr1)" using Some res by (simp add: Q_def)
      have noab: "list_all (\<lambda>e. event_abrupt e = None) evs"
      proof (cases "evs = []")
        case True then show ?thesis by simp
      next
        case False
        then have "set evs = insert (last evs) (set (butlast evs))"
          by (metis append_butlast_last_id list.simps(15) rotate1.simps(2) set_rotate1)
        moreover have "event_abrupt (last evs) = None"
          using m(3) False NormalCompletion by (auto simp add: stops_at_abrupt_def evs_def)
        moreover have "\<forall>e \<in> set (butlast evs). event_abrupt e = None"
          using m(3) by (simp add: stops_at_abrupt_def evs_def list_all_iff)
        ultimately show ?thesis by (simp add: list_all_iff)
      qed
      show ?thesis
      proof (cases "f x (s1, tr1)")
        case None
        then show ?thesis using obeys_NoneD [OF assms(2) None] Qeq by simp
      next
        case (Some res2)
        obtain r2 s2 tr2 where res2: "res2 = (r2, s2, tr2)" by (cases res2)
        from obeys_SomeD [OF assms(2)] Some res2 have f: "take (length tr1) tr2 = tr1"
          "get_then_ToLength None (drop (length tr1) tr2)" "stops_at_abrupt r2 (drop (length tr1) tr2)"
          by simp_all
        define evs2 where "evs2 = drop (length tr1) tr2"
        have tr2: "tr2 = tr @ evs @ evs2" using f(1) tr1 by (metis append_take_drop_id evs2_def append.assoc)
        have d: "drop (length tr) tr2 = evs @ evs2" by (simp add: tr2)
        have 1: "take (length tr) tr2 = tr" by (simp add: tr2)
        have 2: "get_then_ToLength None (evs @ evs2)"
          using m(2) f(2) by (simp add: evs_def [symmetric] evs2_def [symmetric] get_then_ToLength_append)
        have 3: "stops_at_abrupt r2 (evs @ evs2)"
        proof (cases "evs2 = []")
          case True
          then show ?thesis using noab
            by (cases "evs = []") (auto simp add: stops_at_abrupt_def list_all_iff dest: in_set_butlastD)
        next
          case False
          then show ?thesis using noab f(3)
            by (auto simp add: stops_at_abrupt_def evs2_def [symmetric] butlast_append list_all_iff)
        qed
        show ?thesis using Qeq Some res2 1 2 3 d by simp
      qed
    qed
  qed
qed


lemma Q_assoc: "Q (Q m f) g = Q m (\<lambda>x. Q (f x) g)"
  by (rule ext) (simp add: Q_def split: option.splits prod.splits completion.splits)

lemma obeys_Get_ToLength: "obeys b (Q (Get ops Ob length_key) (\<lambda>lenProp. ToLength ops lenProp))"
  by (auto simp add: obeys_def Q_def Get_def ToLength_def perform_def stops_at_abrupt_def
        split: option.splits prod.splits completion.splits)

lemma obeys_length_read:
  assumes "\<And>len. obeys b (f len)"
  shows "obeys b (Q (Get ops Ob length_key) (\<lambda>lenProp. Q (ToLength ops lenProp) f))"
  using obeys_Q [OF obeys_Get_ToLength, of b f ops Ob] assms by (simp add: Q_assoc)

lemma digit_char_digit: "is_digit (digit_char d)"
proof -
  have "nat (d mod 10) < 10" by simp
  then have "nat (d mod 10) < length ''0123456789''" by simp
  then show ?thesis unfolding digit_char_def is_digit_def by (rule nth_mem)
qed

lemma last_digits: "digits n \<noteq> [] \<and> is_digit (last (digits n))"
  by (subst (1 2) digits.simps) (simp add: digit_char_digit)

lemma NumberToString_not_length: "NumberToString k \<noteq> length_key"
proof -
  have "str \<noteq> ''length''" if "str \<noteq> [] \<and> is_digit (last str)" for str
    using that by (auto simp add: is_digit_def)
  then show ?thesis
    using last_digits [of k] last_digits [of "- k"]
    by (auto simp add: NumberToString_def length_key_def)
qed

lemma obeys_Get: "P \<noteq> length_key \<Longrightarrow> obeys b (Get ops Ob P)"
proof -
  assume "P \<noteq> length_key"
  then have "length_got (Get_called Ob P r) = None" for r by (cases r) simp_all
  then show ?thesis unfolding Get_def by (intro obeys_perform) simp_all
qed

lemma obeys_Get_index: "obeys b (Get ops Ob (NumberToString k))"
  by (rule obeys_Get) (rule NumberToString_not_length)

lemma obeys_ops:
  "obeys b (ToObject ops v)"
  "obeys b (Set ops Ob P V T)"
  "obeys b (HasProperty ops Ob P)"
  "obeys b (DeletePropertyOrThrow ops Ob P)"
  "obeys b (CreateDataPropertyOrThrow ops Ob P V)"
  "obeys b (ToInteger ops v)"
  "obeys b (IsArray ops v)"
  "obeys b (IsConcatSpreadable ops v)"
  "obeys b (ArraySpeciesCreate ops Ob len)"
  "obeys b (Call ops F V as)"
  "obeys b (ArrayProto_sortBody ops obj n cmp)"
  unfolding op_defs by (rule obeys_perform; simp)+

lemma obeys_if: "(c \<Longrightarrow> obeys b m) \<Longrightarrow> (\<not> c \<Longrightarrow> obeys b n) \<Longrightarrow> obeys b (if c then m else n)"
  by simp

lemma obeys_case_prod: "(\<And>x y. obeys b (f x y)) \<Longrightarrow> obeys b (case p of (x, y) \<Rightarrow> f x y)"
  by (cases p) simp

lemma obeys_case_option:
  "obeys b m \<Longrightarrow> (\<And>x. obeys b (f x)) \<Longrightarrow> obeys b (case opt of None \<Rightarrow> m | Some x \<Rightarrow> f x)"
  by (cases opt) simp_all

lemmas obeys_intros = obeys_length_read obeys_Q obeys_if obeys_case_prod obeys_case_option
  obeys_ret obeys_Throw obeys_IsCallable obeys_ops obeys_Get_index
























subsection \<open>The first operations of a method\<close>









lemma log_begins_if:
  "(c \<Longrightarrow> log_begins b (shape1) m st) \<Longrightarrow> (\<not> c \<Longrightarrow> log_begins b (shape2) n st) \<Longrightarrow>
   log_begins b (\<lambda>r evs. if c then shape1 r evs else shape2 r evs) (if c then m else n) st"
  by simp






section \<open>FlattenIntoArray returns\<close>

lemma Q_ret: "Q (ret x) f = f x"
  by (rule ext) (simp add: Q_def ret_def)

subsection \<open>A depth that counts down\<close>

lemma depth_within_fuel: "depth_within fuel depth \<Longrightarrow> fuel \<noteq> 0"
  by (cases fuel) auto

lemma depth_within_pred:
  "depth_within fuel depth \<Longrightarrow> ext_positive depth \<Longrightarrow> depth_within (fuel - 1) (ext_pred depth)"
  by (cases fuel) auto

lemma depth_within_mono: "depth_within n depth \<Longrightarrow> n \<le> m \<Longrightarrow> depth_within m depth"
proof (induction n arbitrary: m depth)
  case 0
  then show ?case by simp
next
  case (Suc n)
  then obtain m' where m: "m = Suc m'" "n \<le> m'" by (cases m) auto
  with Suc show ?case by auto
qed

lemma flatten_within_depth:
  "depth_within fuel depth \<Longrightarrow>
   obeys True (FlattenIntoArray_from fuel ops target source sourceLen depth mapperFunction thisArg
                 targetIndex sourceIndex)"
proof (induction fuel ops target source sourceLen depth mapperFunction thisArg targetIndex sourceIndex
       rule: FlattenIntoArray_from.induct)
  case (1 fuel ops target source sourceLen depth mapperFunction thisArg targetIndex sourceIndex)
  have fuel: "fuel \<noteq> 0" using 1(5) by (rule depth_within_fuel)
  have rec: "obeys True (FlattenIntoArray_from (fuel - 1) ops target e len (ext_pred depth)
                           None Undefined targetIndex 0)"
    if "sourceIndex < sourceLen" "ext_positive depth" for e len
    by (rule 1(1) [OF fuel that(1) refl refl]) (rule depth_within_pred [OF 1(5) that(2)])
  have loop: "obeys True (FlattenIntoArray_from fuel ops target source sourceLen depth
                            mapperFunction thisArg ti (sourceIndex + 1))"
    if "sourceIndex < sourceLen" for ti
    by (rule 1(2) [OF fuel that(1) refl refl]) (rule 1(5))
  show ?case
  proof (cases "ext_positive depth")
    case True
    show ?thesis
      apply (subst FlattenIntoArray_from.simps)
      apply (simp add: fuel True del: One_nat_def)
      apply (intro obeys_intros impI conjI; (rule rec [OF _ True] loop; assumption))
      done
  next
    case False
    show ?thesis
      apply (subst FlattenIntoArray_from.simps)
      apply (simp add: fuel False Q_ret del: One_nat_def cong: if_cong)
      apply (intro obeys_intros impI conjI; (rule loop; assumption))
      done
  qed
qed

subsection \<open>A ranked heap\<close>

lemma well_nestedD:
  assumes "nesting_ranked R rk h" "a \<in> set R"
  shows "a < length h"
    and "(P, d) \<in> set (properties (h ! a)) \<Longrightarrow> index_key P \<Longrightarrow> Value_of d = Object b \<Longrightarrow>
         is_array_in h (Object b) \<Longrightarrow> b \<in> set R \<and> rk b < rk a"
    and "Prototype (h ! a) = Object c \<Longrightarrow> c < length h \<Longrightarrow> c \<in> set R \<and> rk c \<le> rk a"
proof -
  from assms have wn: "well_nested R rk h a" by (simp add: nesting_ranked_def list_all_iff)
  then show "a < length h" by (simp add: well_nested_def)
  show "b \<in> set R \<and> rk b < rk a"
    if "(P, d) \<in> set (properties (h ! a))" "index_key P" "Value_of d = Object b"
       "is_array_in h (Object b)"
    using wn that by (fastforce simp add: well_nested_def list_all_iff)
  show "c \<in> set R \<and> rk c \<le> rk a" if "Prototype (h ! a) = Object c" "c < length h"
    using wn that by (simp add: well_nested_def)
qed

lemma find_property_ranked:
  assumes "nesting_ranked R rk h"
    and "index_key P"
  shows "a \<in> set R \<Longrightarrow> find_property n h (Object a) P = Some d \<Longrightarrow> Value_of d = Object b \<Longrightarrow>
         is_array_in h (Object b) \<Longrightarrow> b \<in> set R \<and> rk b < rk a"
proof (induction n arbitrary: a)
  case 0
  then show ?case by simp
next
  case (Suc n)
  have a: "a < length h" using assms(1) Suc.prems(1) by (rule well_nestedD(1))
  show ?case
  proof (cases "map_of (properties (h ! a)) P")
    case (Some d')
    then have "d' = d" using Suc.prems(2) a by simp
    with Some have "(P, d) \<in> set (properties (h ! a))" by (simp add: map_of_SomeD)
    then show ?thesis
      using well_nestedD(2) [OF assms(1) Suc.prems(1)] assms(2) Suc.prems(3,4) by blast
  next
    case None
    then have fp: "find_property n h (Prototype (h ! a)) P = Some d" using Suc.prems(2) a by simp
    then obtain c where c: "Prototype (h ! a) = Object c" "c < length h"
      by (cases n; cases "Prototype (h ! a)") (auto split: if_splits)
    then have cR: "c \<in> set R" "rk c \<le> rk a"
      using well_nestedD(3) [OF assms(1) Suc.prems(1)] by blast+
    from Suc.IH [OF cR(1)] fp c Suc.prems(3,4) have "b \<in> set R \<and> rk b < rk c" by simp
    with cR show ?thesis by simp
  qed
qed

lemma update_entries: "set (AList.update k x al) \<subseteq> insert (k, x) (set al)"
  by (induction al) auto

lemma storesD:
  assumes "stores v ob ob'" "(P, d) \<in> set (properties ob')"
  shows "Value_of d = v \<or> (\<exists>n. Value_of d = Number n) \<or>
         (\<exists>d'. (P, d') \<in> set (properties ob) \<and> Value_of d' = Value_of d)"
  using assms unfolding stores_def by (metis fst_conv snd_conv)

lemma stores_refl: "stores v ob ob"
  by (auto simp add: stores_def)

lemma stores_trans:
  assumes "stores v ob ob'" "stores v ob' ob''"
  shows "stores v ob ob''"
proof -
  have "Value_of d = v \<or> (\<exists>n. Value_of d = Number n) \<or>
        (\<exists>d'. (P, d') \<in> set (properties ob) \<and> Value_of d' = Value_of d)"
    if "(P, d) \<in> set (properties ob'')" for P d
  proof -
    from assms(2) that consider "Value_of d = v" | "\<exists>n. Value_of d = Number n"
      | d' where "(P, d') \<in> set (properties ob')" "Value_of d' = Value_of d"
      by (auto simp add: stores_def)
    then show ?thesis
    proof cases
      case 3
      with storesD [OF assms(1) 3(1)] show ?thesis by auto
    qed auto
  qed
  with assms show ?thesis by (auto simp add: stores_def)
qed

lemma stores_update:
  assumes "Value_of d = v \<or> (\<exists>n. Value_of d = Number n)"
  shows "stores v ob (ob\<lparr>properties := AList.update P d (properties ob)\<rparr>)"
proof -
  have "Value_of (snd e) = v \<or> (\<exists>n. Value_of (snd e) = Number n) \<or>
        (\<exists>d'. (fst e, d') \<in> set (properties ob) \<and> Value_of d' = Value_of (snd e))"
    if "e \<in> set (AList.update P d (properties ob))" for e
  proof -
    from that update_entries [of P d "properties ob"] have "e = (P, d) \<or> e \<in> set (properties ob)"
      by auto
    then show ?thesis
    proof
      assume "e = (P, d)"
      then show ?thesis using assms by auto
    next
      assume "e \<in> set (properties ob)"
      then have "(fst e, snd e) \<in> set (properties ob)" by simp
      then show ?thesis by blast
    qed
  qed
  then show ?thesis by (simp add: stores_def)
qed

lemma stores_OrdinaryDefineOwnProperty:
  "OrdinaryDefineOwnProperty ob P (data_desc v) = (b, ob') \<Longrightarrow> stores v ob ob'"
  by (auto simp add: OrdinaryDefineOwnProperty_def data_desc_def stores_refl
      intro!: stores_update split: option.splits if_splits)

lemma stores_set_length_value: "stores v ob (set_length_value ob n)"
  by (auto simp add: set_length_value_def stores_refl intro!: stores_update split: option.splits)

lemma stores_ArrayDefineOwnProperty:
  "P \<noteq> length_key \<Longrightarrow> ArrayDefineOwnProperty p ob P (data_desc v) = (r, ob') \<Longrightarrow> stores v ob ob'"
  by (auto simp add: ArrayDefineOwnProperty_def Let_def stores_refl
      intro: stores_OrdinaryDefineOwnProperty
             stores_trans [OF stores_OrdinaryDefineOwnProperty stores_set_length_value]
      split: option.splits if_splits prod.splits bool.splits)

lemma stores_DefineOwnProperty:
  "P \<noteq> length_key \<Longrightarrow> DefineOwnProperty p ob P (data_desc v) = (r, ob') \<Longrightarrow> stores v ob ob'"
  by (auto simp add: DefineOwnProperty_def
      intro: stores_OrdinaryDefineOwnProperty stores_ArrayDefineOwnProperty
      split: if_splits prod.splits)

lemma CreateDataPropertyOrThrow_heap:
  assumes "P \<noteq> length_key" "host_CreateDataPropertyOrThrow p target P v s = (r, s')"
  shows "heap s' = heap s \<or>
         (\<exists>t ob'. t < length (heap s) \<and> stores v (heap s ! t) ob' \<and> heap s' = (heap s)[t := ob'])"
proof (cases target)
  case (Object t)
  show ?thesis
  proof (cases "t < length (heap s)")
    case True
    obtain r0 ob' where d: "DefineOwnProperty p (heap s ! t) P (data_desc v) = (r0, ob')"
      by (cases "DefineOwnProperty p (heap s ! t) P (data_desc v)")
    have "stores v (heap s ! t) ob'" by (rule stores_DefineOwnProperty [OF assms(1) d])
    moreover have "heap s' = (heap s)[t := ob']"
      using assms(2) Object True d
      by (auto simp add: host_CreateDataPropertyOrThrow_def put_object_def
          split: completion.splits if_splits)
    ultimately show ?thesis using True by blast
  next
    case False
    then show ?thesis using assms(2) Object by (auto simp add: host_CreateDataPropertyOrThrow_def)
  qed
qed (use assms(2) in \<open>auto simp add: host_CreateDataPropertyOrThrow_def\<close>)


lemma well_nestedI:
  assumes "a < length h"
    and "\<And>P d b. (P, d) \<in> set (properties (h ! a)) \<Longrightarrow> index_key P \<Longrightarrow> Value_of d = Object b \<Longrightarrow>
           is_array_in h (Object b) \<Longrightarrow> b \<in> set R \<and> rk b < rk a"
    and "\<And>c. Prototype (h ! a) = Object c \<Longrightarrow> c < length h \<Longrightarrow> c \<in> set R \<and> rk c \<le> rk a"
  shows "well_nested R rk h a"
  using assms by (auto simp add: well_nested_def list_all_iff split: Value.splits)

lemma ranked_put:
  assumes "nesting_ranked R rk h" "t < length h" "stores v (h ! t) ob'" "\<not> is_array_in h v"
  shows "nesting_ranked R rk (h[t := ob'])"
proof -
  let ?h = "h[t := ob']"
  have arr: "is_array_in ?h w = is_array_in h w" for w
    using assms(2,3) by (cases w) (auto simp add: is_array_in_def stores_def nth_list_update)
  have "well_nested R rk ?h a" if a: "a \<in> set R" for a
  proof (rule well_nestedI)
    have al: "a < length h" using assms(1) a by (rule well_nestedD(1))
    then show "a < length ?h" by simp
    show "b \<in> set R \<and> rk b < rk a"
      if pd: "(P, d) \<in> set (properties (?h ! a))" "index_key P" "Value_of d = Object b"
         "is_array_in ?h (Object b)" for P d b
    proof (cases "a = t")
      case True
      then have "(P, d) \<in> set (properties ob')" using pd(1) assms(2) by simp
      from storesD [OF assms(3) this] obtain d' where
        "(P, d') \<in> set (properties (h ! t))" "Value_of d' = Value_of d"
        using pd(3,4) assms(4) by (auto simp add: arr)
      then show ?thesis using well_nestedD(2) [OF assms(1) a, of P d' b] True pd by (simp add: arr)
    next
      case False
      then show ?thesis using well_nestedD(2) [OF assms(1) a, of P d b] pd by (simp add: arr)
    qed
    show "c \<in> set R \<and> rk c \<le> rk a" if "Prototype (?h ! a) = Object c" "c < length ?h" for c
    proof -
      have "Prototype (?h ! a) = Prototype (h ! a)"
        using assms(2,3) al by (auto simp add: nth_list_update stores_def)
      then show ?thesis using well_nestedD(3) [OF assms(1) a, of c] that by simp
    qed
  qed
  then show ?thesis by (simp add: nesting_ranked_def list_all_iff)
qed

lemma ranked_CreateDataPropertyOrThrow:
  assumes "nesting_ranked R rk (heap s)" "P \<noteq> length_key" "\<not> is_array_in (heap s) v"
    and "host_CreateDataPropertyOrThrow p target P v s = (r, s')"
  shows "nesting_ranked R rk (heap s')"
  using CreateDataPropertyOrThrow_heap [OF assms(2,4)] assms(1,3) by (auto intro: ranked_put)

lemma list_all_digits: "list_all is_digit (digits n)"
  by (induction n rule: digits.induct) (subst digits.simps, simp add: digit_char_digit)

lemma index_key_NumberToString: "0 \<le> k \<Longrightarrow> index_key (NumberToString k)"
  by (simp add: index_key_def NumberToString_def list_all_digits)

lemma HasProperty_host:
  "\<exists>r tr'. HasProperty (host_ops p q) Ob P (s, tr) = Some (r, s, tr')"
  by (auto simp add: HasProperty_def perform_def host_ops_def host_HasProperty_def
      split: Value.splits)

lemma Get_host:
  "\<exists>tr'. Get (host_ops p q) Ob P (s, tr) = Some (fst (host_Get Ob P s), s, tr')"
  by (auto simp add: Get_def perform_def host_ops_def host_Get_def
      split: Value.splits option.splits)

lemma IsArray_host:
  "\<exists>tr'. IsArray (host_ops p q) v (s, tr) =
          Some (NormalCompletion (Boolean (is_array_in (heap s) v)), s, tr')"
  by (simp add: IsArray_def perform_def host_ops_def host_IsArray_def is_array_def is_array_in_def)

lemma ToLength_host:
  "\<exists>r tr'. ToLength (host_ops p q) v (s, tr) = Some (r, s, tr')"
  by (auto simp add: ToLength_def perform_def host_ops_def host_ToLength_def host_ToInteger_def
      split: completion.splits number.splits extint.splits)

lemma CreateDataPropertyOrThrow_host:
  "\<exists>r s' tr'. CreateDataPropertyOrThrow (host_ops p q) Ob P v (s, tr) = Some (r, s', tr') \<and>
               host_CreateDataPropertyOrThrow p Ob P v s = (r, s')"
  by (cases "host_CreateDataPropertyOrThrow p Ob P v s")
     (simp add: CreateDataPropertyOrThrow_def perform_def host_ops_def)

lemma Get_ranked:
  assumes "nesting_ranked R rk (heap s)" "a \<in> set R" "index_key P"
    and "fst (host_Get (Object a) P s) = NormalCompletion (Object b)"
    and "is_array_in (heap s) (Object b)"
  shows "b \<in> set R \<and> rk b < rk a"
proof -
  from assms(4) obtain d where
    "find_property (length (heap s)) (heap s) (Object a) P = Some d" "Value_of d = Object b"
    by (auto simp add: host_Get_def host_Throw_def split: if_splits option.splits)
  then show ?thesis using find_property_ranked [OF assms(1,3,2)] assms(5) by blast
qed

lemma never_within:
  assumes "\<forall>n. \<not> depth_within n depth"
  shows "ext_positive depth" and "\<forall>n. \<not> depth_within n (ext_pred depth)"
proof -
  from assms have "\<not> depth_within (Suc 0) depth" by blast
  then show "ext_positive depth" by simp
  show "\<forall>n. \<not> depth_within n (ext_pred depth)"
  proof
    fix n
    from assms have "\<not> depth_within (Suc n) depth" by blast
    then show "\<not> depth_within n (ext_pred depth)" by simp
  qed
qed


subsection \<open>The recursion on a ranked heap\<close>

lemma flatten_ranked:
  "ops = host_ops p q \<Longrightarrow> mapperFunction = None \<Longrightarrow> source = Object a \<Longrightarrow> a \<in> set R \<Longrightarrow>
   rk a < fuel \<Longrightarrow> 0 \<le> sourceIndex \<Longrightarrow> \<forall>n. \<not> depth_within n depth \<Longrightarrow>
   nesting_ranked R rk (heap s) \<Longrightarrow>
   \<exists>r s' tr'. FlattenIntoArray_from fuel ops target source sourceLen depth mapperFunction thisArg
                 targetIndex sourceIndex (s, tr) = Some (r, s', tr') \<and>
               nesting_ranked R rk (heap s')"
proof (induction fuel ops target source sourceLen depth mapperFunction thisArg targetIndex sourceIndex
       arbitrary: a s tr rule: FlattenIntoArray_from.induct)
  case (1 fuel ops target source sourceLen depth mapperFunction thisArg targetIndex sourceIndex)
  note prems = "1.prems"
  have fuel: "fuel \<noteq> 0" using prems(5) by simp
  note pos = never_within(1) [OF prems(7)]
  note never = never_within(2) [OF prems(7)]
  let ?F = "FlattenIntoArray_from fuel ops target source sourceLen depth mapperFunction thisArg"
  have rec: "\<exists>r s' tr'. FlattenIntoArray_from (fuel - 1) ops target (Object b) len (ext_pred depth)
                           None Undefined targetIndex 0 (s1, tr1) = Some (r, s', tr') \<and>
                         nesting_ranked R rk (heap s')"
    if "sourceIndex < sourceLen" "b \<in> set R" "rk b < fuel - 1" "nesting_ranked R rk (heap s1)"
    for b len s1 tr1
    by (rule "1.IH"(1) [OF fuel that(1) refl refl]) (use prems never that in simp_all)
  have loop: "\<exists>r s' tr'. ?F ti (sourceIndex + 1) (s1, tr1) = Some (r, s', tr') \<and>
                          nesting_ranked R rk (heap s')"
    if "sourceIndex < sourceLen" "nesting_ranked R rk (heap s1)" for ti s1 tr1
    by (rule "1.IH"(2) [OF fuel that(1) refl refl]) (use prems that in simp_all)
  show ?case
  proof (cases "sourceIndex < sourceLen")
    case False
    then show ?thesis using fuel prems(8)
      by (subst FlattenIntoArray_from.simps) (simp add: ret_def)
  next
    case True
    let ?P = "NumberToString sourceIndex"
    have P: "index_key ?P" using prems(6) by (rule index_key_NumberToString)
    have unfold: "?F targetIndex sourceIndex =
      Q (HasProperty ops source ?P) (\<lambda>exists.
        if exists = Boolean True then
          Q (Get ops source ?P) (\<lambda>element.
          Q (IsArray ops element) (\<lambda>shouldFlatten.
          if shouldFlatten = Boolean True then
            Q (Get ops element length_key) (\<lambda>lenProp.
            Q (ToLength ops lenProp) (\<lambda>elementLen.
            Q (FlattenIntoArray_from (fuel - 1) ops target element elementLen (ext_pred depth)
                 None Undefined targetIndex 0) (\<lambda>ti.
            ?F ti (sourceIndex + 1))))
          else if targetIndex \<ge> MAX_SAFE
            then surroundingAgent_Throw ''TypeError'' None []
            else
              Q (CreateDataPropertyOrThrow ops target (NumberToString targetIndex) element) (\<lambda>_.
              ?F (targetIndex + 1) (sourceIndex + 1))))
        else ?F targetIndex (sourceIndex + 1))"
      by (subst FlattenIntoArray_from.simps)
         (simp add: fuel True pos prems(2) Q_ret del: One_nat_def cong: if_cong)
    obtain r0 tr0 where hp: "HasProperty ops source ?P (s, tr) = Some (r0, s, tr0)"
      using HasProperty_host prems(1) by blast
    show ?thesis
    proof (cases r0)
      case (AbruptCompletion c)
      then show ?thesis using prems(8) hp by (simp add: unfold Q_Abrupt)
    next
      case ex: (NormalCompletion exists)
      show ?thesis
      proof (cases "exists = Boolean True")
        case False
        have "?F targetIndex sourceIndex (s, tr) = ?F targetIndex (sourceIndex + 1) (s, tr0)"
          using hp ex False by (simp add: unfold Q_def)
        then show ?thesis using loop [OF True prems(8)] by simp
      next
        case present: True
        obtain tr1 where g: "Get ops source ?P (s, tr0) = Some (fst (host_Get source ?P s), s, tr1)"
          using Get_host prems(1) by blast
        show ?thesis
        proof (cases "fst (host_Get source ?P s)")
          case (AbruptCompletion c)
          then have "?F targetIndex sourceIndex (s, tr) = Some (AbruptCompletion c, s, tr1)"
            using hp ex present g by (simp add: unfold Q_def)
          then show ?thesis using prems(8) by simp
        next
          case el: (NormalCompletion element)
          obtain tr2 where ia: "IsArray ops element (s, tr1) =
              Some (NormalCompletion (Boolean (is_array_in (heap s) element)), s, tr2)"
            using IsArray_host prems(1) by blast
          show ?thesis
          proof (cases "is_array_in (heap s) element")
            case arr: True
            then obtain b where b: "element = Object b"
              by (cases element) (simp_all add: is_array_in_def)
            have bR: "b \<in> set R" "rk b < rk a"
              using Get_ranked [OF prems(8,4) P, of b] el arr b prems(3) by simp_all
            obtain r3 tr3 where g3: "Get ops element length_key (s, tr2) = Some (r3, s, tr3)"
              using Get_host prems(1) by blast
            show ?thesis
            proof (cases r3)
              case (AbruptCompletion c)
              then have "?F targetIndex sourceIndex (s, tr) = Some (AbruptCompletion c, s, tr3)"
                using hp ex present g el ia arr g3 by (simp add: unfold Q_def)
              then show ?thesis using prems(8) by simp
            next
              case lp: (NormalCompletion lenProp)
              obtain r4 tr4 where tl: "ToLength ops lenProp (s, tr3) = Some (r4, s, tr4)"
                using ToLength_host prems(1) by blast
              show ?thesis
              proof (cases r4)
                case (AbruptCompletion c)
                then have "?F targetIndex sourceIndex (s, tr) = Some (AbruptCompletion c, s, tr4)"
                  using hp ex present g el ia arr g3 lp tl by (simp add: unfold Q_def)
                then show ?thesis using prems(8) by simp
              next
                case len: (NormalCompletion elementLen)
                from bR prems(5) have "rk b < fuel - 1" by simp
                from rec [OF True bR(1) this prems(8)] obtain r5 s5 tr5 where
                  inner: "FlattenIntoArray_from (fuel - 1) ops target element elementLen
                            (ext_pred depth) None Undefined targetIndex 0 (s, tr4) = Some (r5, s5, tr5)"
                  and s5: "nesting_ranked R rk (heap s5)"
                  unfolding b by blast
                show ?thesis
                proof (cases r5)
                  case (AbruptCompletion c)
                  then have "?F targetIndex sourceIndex (s, tr) = Some (AbruptCompletion c, s5, tr5)"
                    using hp ex present g el ia arr g3 lp tl len inner by (simp add: unfold Q_def)
                  then show ?thesis using s5 by simp
                next
                  case (NormalCompletion ti)
                  then have "?F targetIndex sourceIndex (s, tr) = ?F ti (sourceIndex + 1) (s5, tr5)"
                    using hp ex present g el ia arr g3 lp tl len inner by (simp add: unfold Q_def)
                  then show ?thesis using loop [OF True s5] by simp
                qed
              qed
            qed
          next
            case notarr: False
            show ?thesis
            proof (cases "targetIndex \<ge> MAX_SAFE")
              case True
              then have "?F targetIndex sourceIndex (s, tr) =
                  Some (AbruptCompletion (ThrowCompletion ''TypeError'' None []), s, tr2)"
                using hp ex present g el ia notarr
                by (simp add: unfold Q_def surroundingAgent_Throw_def)
              then show ?thesis using prems(8) by simp
            next
              case room: False
              obtain r6 s6 tr6 where
                cd: "CreateDataPropertyOrThrow ops target (NumberToString targetIndex) element (s, tr2) =
                       Some (r6, s6, tr6)"
                and hcd: "host_CreateDataPropertyOrThrow p target (NumberToString targetIndex) element s =
                       (r6, s6)"
                using CreateDataPropertyOrThrow_host [of p q] prems(1) by blast
              have s6: "nesting_ranked R rk (heap s6)"
                by (rule ranked_CreateDataPropertyOrThrow
                      [OF prems(8) NumberToString_not_length notarr hcd])
              show ?thesis
              proof (cases r6)
                case (AbruptCompletion c)
                then have "?F targetIndex sourceIndex (s, tr) = Some (AbruptCompletion c, s6, tr6)"
                  using hp ex present g el ia notarr room cd by (simp add: unfold Q_def)
                then show ?thesis using s6 by simp
              next
                case (NormalCompletion u)
                then have "?F targetIndex sourceIndex (s, tr) =
                    ?F (targetIndex + 1) (sourceIndex + 1) (s6, tr6)"
                  using hp ex present g el ia notarr room cd by (simp add: unfold Q_def)
                then show ?thesis using loop [OF True s6] by simp
              qed
            qed
          qed
        qed
      qed
    qed
  qed
qed


subsection \<open>Termination\<close>

lemma returns_within_depth:
  assumes "depth_within n depth" "n \<le> fuel"
  shows "\<exists>r st'. FlattenIntoArray fuel ops target source sourceLen start depth mapperFunction thisArg st
                  = Some (r, st')"
proof -
  obtain s tr where st: "st = (s, tr)" by (cases st)
  have "depth_within fuel depth" using assms by (rule depth_within_mono)
  then have ob: "obeys True (FlattenIntoArray fuel ops target source sourceLen start depth mapperFunction thisArg)"
    unfolding FlattenIntoArray_def by (rule flatten_within_depth)
  have "FlattenIntoArray fuel ops target source sourceLen start depth mapperFunction thisArg (s, tr) \<noteq> None"
  proof
    assume "FlattenIntoArray fuel ops target source sourceLen start depth mapperFunction thisArg (s, tr) = None"
    with ob have "\<not> True" by (rule obeys_NoneD)
    then show False by simp
  qed
  then show ?thesis using st by (cases "FlattenIntoArray fuel ops target source sourceLen start depth mapperFunction thisArg (s, tr)") auto
qed

lemma returns_ranked:
  assumes "nesting_ranked R rk (heap s)" "a \<in> set R"
  shows "\<exists>n. \<forall>fuel\<ge>n. \<exists>r st'.
           FlattenIntoArray fuel (host_ops p q) target (Object a) sourceLen start depth None thisArg (s, tr)
             = Some (r, st')"
proof (cases "\<exists>n. depth_within n depth")
  case True
  then obtain n where n: "depth_within n depth" ..
  have "\<forall>fuel\<ge>n. \<exists>r st'.
           FlattenIntoArray fuel (host_ops p q) target (Object a) sourceLen start depth None thisArg (s, tr)
             = Some (r, st')"
    by (intro allI impI) (rule returns_within_depth [OF n])
  then show ?thesis ..
next
  case False
  then have never: "\<forall>n. \<not> depth_within n depth" by simp
  have "\<exists>r st'.
           FlattenIntoArray fuel (host_ops p q) target (Object a) sourceLen start depth None thisArg (s, tr)
             = Some (r, st')" if "Suc (rk a) \<le> fuel" for fuel
  proof -
    from that have "rk a < fuel" by simp
    from flatten_ranked [OF refl refl refl assms(2) this order_refl never assms(1)]
    obtain r s' tr' where "FlattenIntoArray_from fuel (host_ops p q) target (Object a) sourceLen depth
        None thisArg start 0 (s, tr) = Some (r, s', tr')" by blast
    then show ?thesis unfolding FlattenIntoArray_def by (intro exI)
  qed
  then show ?thesis by (intro exI [of _ "Suc (rk a)"] allI impI)
qed

lemma never_PosInf: "\<not> depth_within n PosInf"
  by (induction n) simp_all

lemma depth_within_NegInf: "depth_within (Suc n) NegInf"
  by simp

lemma depth_within_Fin: "d \<le> 2 ^ 53 \<Longrightarrow> depth_within (Suc (nat d)) (Fin d)"
proof (induction "nat d" arbitrary: d)
  case 0
  then show ?case by simp
next
  case (Suc k)
  from Suc(2) have d: "0 < d" "nat (d - 1) = k" by simp_all
  with Suc(3) have "\<bar>d - 1\<bar> < 2 ^ 53" by simp
  then have sub: "js_sub d 1 = d - 1" by (simp add: js_sub_def round_double_exact)
  from Suc(1) [of "d - 1"] d Suc(3) have "depth_within (Suc k) (Fin (d - 1))" by simp
  with sub Suc(2) [symmetric] show ?case by simp
qed

lemma depth_one: "depth_within 2 (Fin 1)"
  using depth_within_Fin [of 1] by (simp add: numeral_2_eq_2)

lemma nested_ranked: "nesting_ranked [0, 1, 2, 3, 4] rank_nested (heap realm_nested)"
  by code_simp

text \<open>
  Claim C8.  FlattenIntoArray returns on every source whose element structure is finite
  and acyclic, whatever the depth, Infinity included.  On the host, let the heap be
  ranked: \<open>R\<close> holds the source \<open>a\<close>, and each array held under a digit key by an object of
  \<open>R\<close> is in \<open>R\<close> with a smaller rank.  Then some amount of fuel is enough for the call
  without a mapper function to return, for every depth, every target (which may be one
  of the arrays of the structure), every \<open>sourceLen\<close> and every \<open>start\<close>, and so is every larger
  amount.  The loop over the source indices needs no fuel; the rank of the source, or
  the count the depth runs through, bounds the nesting of the calls.  Second, for every
  record of operations, every source and every mapper function: a depth that counts down
  to zero in fewer than \<open>m\<close> steps makes the call return with fuel \<open>m\<close> or more, which
  is the case of \<^verbatim>\<open>flatMap\<close>, whose depth is 1.
\<close>

theorem FlattenIntoArray_returns:
  "(nesting_ranked R rk (heap s) \<and> a \<in> set R \<longrightarrow>
      (\<exists>n. \<forall>fuel\<ge>n. \<exists>r st'.
         FlattenIntoArray fuel (host_ops p q) target (Object a) sourceLen start depth None thisArg (s, tr)
           = Some (r, st'))) \<and>
   (depth_within m limit \<and> m \<le> k \<longrightarrow>
      (\<exists>r st'. FlattenIntoArray k ops dest source len first limit mapperFunction T st = Some (r, st')))"
proof (intro conjI impI)
  assume "nesting_ranked R rk (heap s) \<and> a \<in> set R"
  then show "\<exists>n. \<forall>fuel\<ge>n. \<exists>r st'.
         FlattenIntoArray fuel (host_ops p q) target (Object a) sourceLen start depth None thisArg (s, tr)
           = Some (r, st')"
    by (elim conjE) (rule returns_ranked)
next
  assume "depth_within m limit \<and> m \<le> k"
  then show "\<exists>r st'. FlattenIntoArray k ops dest source len first limit mapperFunction T st = Some (r, st')"
    by (elim conjE) (rule returns_within_depth)
qed

theorem FlattenIntoArray_returns_witness:
  "nesting_ranked [0, 1, 2, 3, 4] rank_nested (heap realm_nested) \<and> 4 \<in> set [0, 1, 2, 3, 4 :: nat] \<and>
   depth_within 2 (Fin 1) \<and> (2 :: nat) \<le> 2 \<and>
   (\<exists>fuel r st'. FlattenIntoArray fuel std_ops (Object 1) (Object 4) 2 0 PosInf None Undefined
                    (realm_nested, []) = Some (r, st')) \<and>
   (\<exists>r st'. FlattenIntoArray 2 std_ops (Object 1) (Object 4) 2 0 (Fin 1) (Some Undefined) Undefined
               (realm_nested, []) = Some (r, st'))"
proof -
  have four: "4 \<in> set [0, 1, 2, 3, 4 :: nat]" by simp
  note both = FlattenIntoArray_returns
    [where R = "[0, 1, 2, 3, 4]" and rk = rank_nested and s = realm_nested and a = 4
       and p = "\<lambda>str. NaN" and q = "\<lambda>obj len comparefn s. (NormalCompletion obj, s)"
       and target = "Object 1" and sourceLen = 2 and start = 0 and depth = PosInf
       and thisArg = Undefined and tr = "[]"
       and m = 2 and limit = "Fin 1" and k = 2 and ops = std_ops and dest = "Object 1"
       and source = "Object 4" and len = 2 and first = 0 and mapperFunction = "Some Undefined"
       and T = Undefined and st = "(realm_nested, [])", folded std_ops_def]
  from both nested_ranked four obtain n where
    "\<forall>fuel\<ge>n. \<exists>r st'. FlattenIntoArray fuel std_ops (Object 1) (Object 4) 2 0 PosInf None Undefined
                    (realm_nested, []) = Some (r, st')" by blast
  then have inf: "\<exists>fuel r st'. FlattenIntoArray fuel std_ops (Object 1) (Object 4) 2 0 PosInf None Undefined
                    (realm_nested, []) = Some (r, st')" by blast
  from both depth_one have one: "\<exists>r st'. FlattenIntoArray 2 std_ops (Object 1) (Object 4) 2 0 (Fin 1)
               (Some Undefined) Undefined (realm_nested, []) = Some (r, st')" by simp
  from nested_ranked four depth_one inf one show ?thesis by simp
qed

text \<open>
  Claim C10.  For every expression node, IsAnonymousFunctionDefinition returns true
  exactly when IsFunctionDefinition_Expression returns true and HasName_Expression
  returns false; the result is a plain boolean (the type of the first component); and
  HasName_Expression is called exactly when the node is a function definition, after
  IsFunctionDefinition_Expression.
\<close>

theorem IsAnonymousFunctionDefinition_spec:
  "fst (IsAnonymousFunctionDefinition isFn hasName expr) = (isFn expr \<and> \<not> hasName expr)
   \<and> snd (IsAnonymousFunctionDefinition isFn hasName expr) =
       (if isFn expr
        then [Called_IsFunctionDefinition_Expression expr, Called_HasName_Expression expr]
        else [Called_IsFunctionDefinition_Expression expr])"
  by (simp add: IsAnonymousFunctionDefinition_def Let_def)

end
